theory Spec2Isabelle
  imports Complex_Main
begin

section \<open>Data model (types.ts)\<close>

text \<open>
  JavaScript numbers are modelled as mathematical reals: rounding, overflow, NaN and the
  signed zeros of IEEE doubles are not represented. Every "within tolerance" of the
  geometry is therefore an exact equation here. Indices are integers.

  Field names follow the source, except where the name is an Isabelle keyword or an
  existing constant: \<open>end\<close> is \<open>seg_end\<close>, \<open>id\<close> is \<open>id_str\<close>, \<open>closed\<close> is
  \<open>closed_flag\<close>. An optional field (\<open>bulge?\<close>, \<open>closed?\<close>) is an option.
\<close>

record point =
  x :: real
  y :: real

record polyline_segment =
  seg_end :: point
  bulge :: "point option"

record polyline_measurement =
  id_str :: string
  start :: point
  segments :: "polyline_segment list"
  closed_flag :: "bool option"

record rectangle_measurement =
  rect_id_str :: string
  points :: "point \<times> point"

record circle_measurement =
  circ_id_str :: string
  center :: point
  radiusPx :: real

datatype measurement =
    Polyline polyline_measurement
  | Rectangle rectangle_measurement
  | Circle circle_measurement

section \<open>Distance helpers (utils.ts)\<close>

definition dist_pt :: "point \<Rightarrow> point \<Rightarrow> real" where
  "dist_pt a b = sqrt ((x b - x a)\<^sup>2 + (y b - y a)\<^sup>2)"

definition pointNear :: "point \<Rightarrow> point \<Rightarrow> real \<Rightarrow> bool" where
  "pointNear p target threshold \<longleftrightarrow> dist_pt p target \<le> threshold"

section \<open>Point model (tool-manager.ts)\<close>

text \<open>
  \<open>getMeasurementPoints\<close>: the loop pushes, for each segment in order, the bulge (when
  present) and then the end onto \<open>pts\<close>, which starts as \<open>[m.start]\<close>.
\<close>

definition pushSegment :: "point list \<Rightarrow> polyline_segment \<Rightarrow> point list" where
  "pushSegment pts seg =
     (case bulge seg of Some b \<Rightarrow> pts @ [b] | None \<Rightarrow> pts) @ [seg_end seg]"

fun getMeasurementPoints :: "measurement \<Rightarrow> point list" where
  "getMeasurementPoints (Polyline m) = foldl pushSegment [start m] (segments m)"
| "getMeasurementPoints (Rectangle m) = [fst (points m), snd (points m)]"
| "getMeasurementPoints (Circle m) =
     [center m, \<lparr>x = x (center m) + radiusPx m, y = y (center m)\<rparr>]"

text \<open>
  \<open>setMeasurementPoint\<close>, polyline case after the test \<open>idx === 0\<close>: the loop walks the
  segments with the running flattened index \<open>ci\<close> and writes the first slot whose index
  is \<open>idx\<close>; when no slot matches, nothing is written.
\<close>

fun setSegmentPoint :: "int \<Rightarrow> int \<Rightarrow> point \<Rightarrow> polyline_segment list \<Rightarrow> polyline_segment list" where
  "setSegmentPoint ci idx p [] = []"
| "setSegmentPoint ci idx p (seg # segs) =
     (case bulge seg of
        Some b \<Rightarrow>
          if ci = idx then seg\<lparr>bulge := Some p\<rparr> # segs
          else if ci + 1 = idx then seg\<lparr>seg_end := p\<rparr> # segs
          else seg # setSegmentPoint (ci + 2) idx p segs
      | None \<Rightarrow>
          if ci = idx then seg\<lparr>seg_end := p\<rparr> # segs
          else seg # setSegmentPoint (ci + 1) idx p segs)"

text \<open>
  A rectangle's \<open>points\<close> is the pair \<open>[Point, Point]\<close>; \<open>m.points[idx] = p\<close> with an
  index other than 0 or 1 adds an array property that no function of the point model
  reads, so the pair is unchanged there. For a circle both tests run in sequence, the
  second one on the centre as the first left it.
\<close>

fun setMeasurementPoint :: "measurement \<Rightarrow> int \<Rightarrow> point \<Rightarrow> measurement" where
  "setMeasurementPoint (Polyline m) idx p =
     (if idx = 0 then Polyline (m\<lparr>start := p\<rparr>)
      else Polyline (m\<lparr>segments := setSegmentPoint 1 idx p (segments m)\<rparr>))"
| "setMeasurementPoint (Rectangle m) idx p =
     (if idx = 0 then Rectangle (m\<lparr>points := (p, snd (points m))\<rparr>)
      else if idx = 1 then Rectangle (m\<lparr>points := (fst (points m), p)\<rparr>)
      else Rectangle m)"
| "setMeasurementPoint (Circle m) idx p =
     (let m1 = (if idx = 0 then m\<lparr>center := p\<rparr> else m);
          m2 = (if idx = 1
                then m1\<lparr>radiusPx := sqrt ((x p - x (center m1))\<^sup>2 + (y p - y (center m1))\<^sup>2)\<rparr>
                else m1)
      in Circle m2)"

text \<open>\<open>identifyPolylinePoint\<close>: the same walk, returning what the index names.\<close>

datatype point_info = StartPoint | BulgePoint nat | EndPoint nat

fun identifySegmentPoint :: "int \<Rightarrow> nat \<Rightarrow> int \<Rightarrow> polyline_segment list \<Rightarrow> point_info option" where
  "identifySegmentPoint ci si idx [] = None"
| "identifySegmentPoint ci si idx (seg # segs) =
     (case bulge seg of
        Some b \<Rightarrow>
          if ci = idx then Some (BulgePoint si)
          else if ci + 1 = idx then Some (EndPoint si)
          else identifySegmentPoint (ci + 2) (Suc si) idx segs
      | None \<Rightarrow>
          if ci = idx then Some (EndPoint si)
          else identifySegmentPoint (ci + 1) (Suc si) idx segs)"

definition identifyPolylinePoint :: "polyline_measurement \<Rightarrow> int \<Rightarrow> point_info option" where
  "identifyPolylinePoint m idx =
     (if idx = 0 then Some StartPoint else identifySegmentPoint 1 0 idx (segments m))"

text \<open>\<open>Array.prototype.splice(si, 1)\<close> on a list.\<close>

definition splice1 :: "nat \<Rightarrow> 'a list \<Rightarrow> 'a list" where
  "splice1 si xs = take si xs @ drop (Suc si) xs"

definition removePolylinePoint :: "polyline_measurement \<Rightarrow> int \<Rightarrow> polyline_measurement" where
  "removePolylinePoint m idx =
     (case identifyPolylinePoint m idx of
        None \<Rightarrow> m
      | Some (BulgePoint si) \<Rightarrow>
          m\<lparr>segments := (segments m)[si := (segments m ! si)\<lparr>bulge := None\<rparr>]\<rparr>
      | Some StartPoint \<Rightarrow>
          (case segments m of
             [] \<Rightarrow> m
           | seg0 # rest \<Rightarrow> m\<lparr>start := seg_end seg0, segments := splice1 0 (segments m)\<rparr>)
      | Some (EndPoint si) \<Rightarrow>
          (if si = length (segments m) - 1
           then m\<lparr>segments := splice1 si (segments m)\<rparr>
           else m\<lparr>segments := splice1 si (segments m)\<rparr>))"


section \<open>Geometry kernel (utils.ts)\<close>

record circle =
  cx :: real
  cy :: real
  r :: real

text \<open>
  \<open>circumscribedCircle\<close>: \<open>None\<close> is the source's \<open>null\<close>. The local names of the source
  are kept, except that \<open>by\<close> is \<open>by'\<close> (a keyword here) and, to keep them apart from
  the fields of the result, the locals \<open>cx\<close>, \<open>cy\<close>, \<open>r\<close> are \<open>cx'\<close>, \<open>cy'\<close>, \<open>rad\<close>
  (here and in \<open>computeTangentArcBulge\<close>).
\<close>

definition circumscribedCircle :: "point \<Rightarrow> point \<Rightarrow> point \<Rightarrow> circle option" where
  "circumscribedCircle p1 p2 p3 =
     (let ax = x p1; ay = y p1;
          bx = x p2; by' = y p2;
          cx' = x p3; cy' = y p3;
          D = 2 * (ax * (by' - cy') + bx * (cy' - ay) + cx' * (ay - by'))
      in if \<bar>D\<bar> < 1 / 10 ^ 10 then None
         else
           let ux = ((ax * ax + ay * ay) * (by' - cy') + (bx * bx + by' * by') * (cy' - ay)
                      + (cx' * cx' + cy' * cy') * (ay - by')) / D;
               uy = ((ax * ax + ay * ay) * (cx' - bx) + (bx * bx + by' * by') * (ax - cx')
                      + (cx' * cx' + cy' * cy') * (bx - ax)) / D;
               rad = sqrt ((ax - ux)\<^sup>2 + (ay - uy)\<^sup>2)
           in Some \<lparr>cx = ux, cy = uy, r = rad\<rparr>)"

text \<open>
  JavaScript's \<open>%\<close> on numbers is the remainder of truncated division, with the sign of
  the dividend.
\<close>

definition trunc :: "real \<Rightarrow> int" where
  "trunc q = (if 0 \<le> q then \<lfloor>q\<rfloor> else \<lceil>q\<rceil>)"

definition js_rem :: "real \<Rightarrow> real \<Rightarrow> real" where
  "js_rem a b = a - b * of_int (trunc (a / b))"

definition normalizeAngle :: "real \<Rightarrow> real" where
  "normalizeAngle a =
     (let a1 = js_rem a (2 * pi) in if a1 < 0 then a1 + 2 * pi else a1)"


text \<open>
  \<open>Math.atan2(y, x)\<close> on reals: the angle in \<open>(-\<pi>, \<pi>]\<close> of the vector \<open>(x, y)\<close>, and 0 for
  the zero vector. (The signed zeros of the source's numbers are not modelled.)
\<close>

definition Math_atan2 :: "real \<Rightarrow> real \<Rightarrow> real" where
  "Math_atan2 yy xx =
     (if 0 < xx then arctan (yy / xx)
      else if xx < 0 \<and> 0 \<le> yy then arctan (yy / xx) + pi
      else if xx < 0 \<and> yy < 0 then arctan (yy / xx) - pi
      else if 0 < yy then pi / 2
      else if yy < 0 then - (pi / 2)
      else 0)"

definition computeTangentArcBulge :: "point \<Rightarrow> point \<Rightarrow> point \<Rightarrow> point option" where
  "computeTangentArcBulge segStart segEnd tangentDir =
     (let nx = - y tangentDir;
          ny = x tangentDir;
          dx = x segStart - x segEnd;
          dy = y segStart - y segEnd
      in if dx * dx + dy * dy < 1 / 10 ^ 6 then None
         else
           let denom = 2 * (nx * dx + ny * dy)
           in if \<bar>denom\<bar> < 1 / 10 ^ 6 then None
              else
                let t = - (dx * dx + dy * dy) / denom;
                    cx' = x segStart + t * nx;
                    cy' = y segStart + t * ny;
                    rad = \<bar>t\<bar>;
                    a1 = Math_atan2 (y segStart - cy') (x segStart - cx');
                    a3 = Math_atan2 (y segEnd - cy') (x segEnd - cx');
                    aMid =
                      (if 0 < t
                       then let sweep = normalizeAngle (a3 - a1);
                                sweep' = (if sweep = 0 then 2 * pi else sweep)
                            in a1 + sweep' / 2
                       else let sweep = normalizeAngle (a1 - a3);
                                sweep' = (if sweep = 0 then 2 * pi else sweep)
                            in a1 - sweep' / 2)
                in Some \<lparr>x = cx' + rad * cos aMid, y = cy' + rad * sin aMid\<rparr>)"

section \<open>Arc construction (polyline-arc.ts)\<close>


definition CLOSE_SNAP_RADIUS :: real where
  "CLOSE_SNAP_RADIUS = 24"





text \<open>Writing a field of the last segment, \<open>lastSeg.f = v\<close>, on a non-empty list.\<close>

definition update_last :: "('a \<Rightarrow> 'a) \<Rightarrow> 'a list \<Rightarrow> 'a list" where
  "update_last f xs = butlast xs @ [f (last xs)]"



record ArcReleaseResult =
  closed_result :: bool
  removedDegenerate :: bool

text \<open>
  \<open>finalizeArc\<close> mutates the polyline and returns a result; the model returns both.
  The result field \<open>closed\<close> is \<open>closed_result\<close>.
\<close>

definition finalizeArc ::
    "polyline_measurement \<Rightarrow> bool \<Rightarrow> bool \<Rightarrow> polyline_measurement \<times> ArcReleaseResult" where
  "finalizeArc m shiftHeld wasNewSegment =
     (if 2 \<le> length (segments m) \<and> \<not> shiftHeld
           \<and> pointNear (seg_end (last (segments m))) (start m) CLOSE_SNAP_RADIUS
      then (m\<lparr>segments := update_last (\<lambda>s. s\<lparr>seg_end := start m\<rparr>) (segments m),
              closed_flag := Some True\<rparr>,
            \<lparr>closed_result = True, removedDegenerate = False\<rparr>)
      else if wasNewSegment \<and> 2 \<le> length (segments m)
           \<and> dist_pt (seg_end (segments m ! (length (segments m) - 2)))
                      (seg_end (last (segments m))) < 2
      then (m\<lparr>segments := butlast (segments m)\<rparr>,
            \<lparr>closed_result = False, removedDegenerate = True\<rparr>)
      else (m, \<lparr>closed_result = False, removedDegenerate = False\<rparr>))"


section \<open>The line tool (tools/line-tool.ts)\<close>




datatype snap_type = Tangent | Perpendicular

record snap_result =
  snapped :: point
  snapType :: "snap_type option"



text \<open>
  The context a tool method receives (tool.ts). Only the fields the line tool reads are
  kept: \<open>mousePos\<close> and \<open>shiftHeld\<close>, here \<open>ctx_mousePos\<close> and \<open>ctx_shiftHeld\<close>.
\<close>

record ToolContext =
  ctx_mousePos :: point
  ctx_shiftHeld :: bool

text \<open>
  The state of \<open>LineTool\<close>. \<open>currentSnap\<close> is a snap result with the fields \<open>from\<close> (here
  \<open>snap_from\<close>) and \<open>direction\<close>. \<open>arcDragTimeout\<close> is the pending timer: \<open>None\<close> when no
  timer is pending, and otherwise which of the two callbacks of \<open>onClick\<close> it will run.
  The callback of a normal click closes over the context \<open>ctx\<close> of that click, which the
  timer value carries, and over \<open>mRef\<close>, the polyline that was active at the click. The
  events modelled here (mouse down, mouse move, the timer) never replace the active
  polyline, so \<open>mRef\<close> is the active polyline when the timer fires.
\<close>

record current_snap = snap_result +
  snap_from :: point
  direction :: point

datatype arc_timer = ClosingHold | NormalHold ToolContext

record LineTool =
  activeMeasurement :: "polyline_measurement option"
  isHoldingForArc :: bool
  arcDragTimeout :: "arc_timer option"
  isClosingSegment :: bool
  arcIsNewSegment :: bool
  currentSnap :: "current_snap option"
  closeSnapActive :: bool





section \<open>Pointer events of the tool manager (tool-manager.ts)\<close>

text \<open>
  The part of \<open>ToolManager\<close> that feeds the line tool while a polyline is under
  construction: the pointer position, the pan offset, the panning and shift flags, and
  the active tool, which is the line tool. \<open>getContext\<close> builds a new context object that
  holds the manager's \<open>mousePos\<close> of that moment; \<open>handleMouseMove\<close> then stores a new
  point in \<open>this.mousePos\<close> and leaves contexts built earlier as they are.
\<close>

record ToolManager =
  mousePos :: point
  panX :: real
  panY :: real
  isPanning :: bool
  shiftHeld :: bool
  lineTool :: LineTool















section \<open>Vocabulary for flattened indices\<close>

text \<open>
  The flattened index at which segment \<open>k\<close> begins is the number of points that
  \<open>getMeasurementPoints\<close> gives for the polyline cut down to its first \<open>k\<close> segments.
  When segment \<open>k\<close> has a bulge, that index is its bulge slot and the next one is its end
  slot; otherwise it is its end slot.
\<close>

definition bulgeIndex :: "polyline_measurement \<Rightarrow> nat \<Rightarrow> int" where
  "bulgeIndex m k =
     int (length (getMeasurementPoints (Polyline (m\<lparr>segments := take k (segments m)\<rparr>))))"

definition endIndex :: "polyline_measurement \<Rightarrow> nat \<Rightarrow> int" where
  "endIndex m k =
     bulgeIndex m k + (case bulge (segments m ! k) of Some b \<Rightarrow> 1 | None \<Rightarrow> 0)"

text \<open>The points one segment contributes to the flattened list.\<close>

definition segmentSlots :: "polyline_segment \<Rightarrow> point list" where
  "segmentSlots seg = (case bulge seg of Some b \<Rightarrow> [b] | None \<Rightarrow> []) @ [seg_end seg]"

text \<open>
  The closed triangle of the repository's tests (tool-manager.test.ts, "closed polyline
  with arc"): the closing edge is an arc, so the closing segment is kept and ends at
  \<open>start\<close>.
\<close>

definition closedArcTriangle :: polyline_measurement where
  "closedArcTriangle =
     \<lparr>id_str = ''p-closed'', start = \<lparr>x = 0, y = 0\<rparr>,
      segments =
        [\<lparr>seg_end = \<lparr>x = 100, y = 0\<rparr>, bulge = None\<rparr>,
         \<lparr>seg_end = \<lparr>x = 50, y = 80\<rparr>, bulge = None\<rparr>,
         \<lparr>seg_end = \<lparr>x = 0, y = 0\<rparr>, bulge = Some \<lparr>x = 10, y = 40\<rparr>\<rparr>],
      closed_flag = Some True\<rparr>"

text \<open>The same triangle with the straight closing segment popped (implicit close).\<close>

definition closedStraightTriangle :: polyline_measurement where
  "closedStraightTriangle =
     \<lparr>id_str = ''p-closed-noarc'', start = \<lparr>x = 0, y = 0\<rparr>,
      segments =
        [\<lparr>seg_end = \<lparr>x = 100, y = 0\<rparr>, bulge = None\<rparr>,
         \<lparr>seg_end = \<lparr>x = 50, y = 80\<rparr>, bulge = None\<rparr>],
      closed_flag = Some True\<rparr>"

text \<open>The circle of the test "moves circle edge point (updates radius)".\<close>

definition circle50 :: circle_measurement where
  "circle50 = \<lparr>circ_id_str = ''c1'', center = \<lparr>x = 0, y = 0\<rparr>, radiusPx = 50\<rparr>"

text \<open>The determinant \<open>D\<close> of \<open>circumscribedCircle\<close>, as a function of the three points.\<close>

definition bisectorDet :: "point \<Rightarrow> point \<Rightarrow> point \<Rightarrow> real" where
  "bisectorDet p1 p2 p3 =
     2 * (x p1 * (y p2 - y p3) + x p2 * (y p3 - y p1) + x p3 * (y p1 - y p2))"


text \<open>Polylines under construction, for the release policy of a held arc.\<close>

definition shortOpenPolyline :: polyline_measurement where
  "shortOpenPolyline =
     \<lparr>id_str = ''test'', start = \<lparr>x = 0, y = 0\<rparr>,
      segments = [\<lparr>seg_end = \<lparr>x = 3, y = 4\<rparr>, bulge = None\<rparr>],
      closed_flag = None\<rparr>"

definition nearStartTapPolyline :: polyline_measurement where
  "nearStartTapPolyline =
     \<lparr>id_str = ''test'', start = \<lparr>x = 0, y = 0\<rparr>,
      segments = [\<lparr>seg_end = \<lparr>x = 2, y = 4\<rparr>, bulge = None\<rparr>,
                  \<lparr>seg_end = \<lparr>x = 3, y = 4\<rparr>, bulge = None\<rparr>],
      closed_flag = None\<rparr>"

definition tapPolyline :: polyline_measurement where
  "tapPolyline =
     \<lparr>id_str = ''test'', start = \<lparr>x = 0, y = 0\<rparr>,
      segments = [\<lparr>seg_end = \<lparr>x = 100, y = 0\<rparr>, bulge = None\<rparr>,
                  \<lparr>seg_end = \<lparr>x = 101, y = 0\<rparr>, bulge = None\<rparr>],
      closed_flag = None\<rparr>"

text \<open>
  The two quantities that \<open>computeTangentArcBulge\<close> tests before it solves for the
  centre: the squared distance of the endpoints and the denominator \<open>denom\<close>.
\<close>

definition chordSq :: "point \<Rightarrow> point \<Rightarrow> real" where
  "chordSq segStart segEnd =
     (x segStart - x segEnd) * (x segStart - x segEnd)
       + (y segStart - y segEnd) * (y segStart - y segEnd)"

definition tangentDenom :: "point \<Rightarrow> point \<Rightarrow> point \<Rightarrow> real" where
  "tangentDenom segStart segEnd tangentDir =
     2 * (- y tangentDir * (x segStart - x segEnd) + x tangentDir * (y segStart - y segEnd))"

section \<open>Facts about the flattened list\<close>

lemma segmentSlots_None: "bulge seg = None \<Longrightarrow> segmentSlots seg = [seg_end seg]"
  by (simp add: segmentSlots_def)

lemma segmentSlots_Some: "bulge seg = Some b \<Longrightarrow> segmentSlots seg = [b, seg_end seg]"
  by (simp add: segmentSlots_def)

lemmas slots = segmentSlots_None segmentSlots_Some

lemma segmentSlots_upd [simp]:
  "segmentSlots (seg\<lparr>seg_end := p\<rparr>) = (case bulge seg of Some b \<Rightarrow> [b] | None \<Rightarrow> []) @ [p]"
  "segmentSlots (seg\<lparr>bulge := Some p\<rparr>) = [p, seg_end seg]"
  "segmentSlots (seg\<lparr>bulge := None\<rparr>) = [seg_end seg]"
  by (simp_all add: segmentSlots_def)

lemma foldl_pushSegment: "foldl pushSegment acc segs = acc @ concat (map segmentSlots segs)"
  by (induction segs arbitrary: acc)
     (auto simp: pushSegment_def segmentSlots_def split: option.splits)

lemma polyline_points:
  "getMeasurementPoints (Polyline m) = start m # concat (map segmentSlots (segments m))"
  by (simp add: foldl_pushSegment)

lemma bulgeIndex_eq:
  "bulgeIndex m k = 1 + int (length (concat (map segmentSlots (take k (segments m)))))"
  by (simp add: bulgeIndex_def foldl_pushSegment)

lemma length_slots_setSegmentPoint:
  "length (concat (map segmentSlots (setSegmentPoint ci idx p segs)))
     = length (concat (map segmentSlots segs))"
  by (induction segs arbitrary: ci) (auto simp: slots split: option.splits)

lemma nth_slots_setSegmentPoint:
  "ci \<le> idx \<Longrightarrow> idx < ci + int (length (concat (map segmentSlots segs))) \<Longrightarrow>
   concat (map segmentSlots (setSegmentPoint ci idx p segs)) ! nat (idx - ci) = p"
proof (induction segs arbitrary: ci)
  case Nil
  then show ?case by simp
next
  case (Cons seg segs)
  show ?case
  proof (cases "bulge seg")
    case None
    show ?thesis
    proof (cases "ci = idx")
      case True
      with None show ?thesis by (simp add: slots)
    next
      case False
      with Cons.prems None
      have a: "ci + 1 \<le> idx" "idx < ci + 1 + int (length (concat (map segmentSlots segs)))"
        by (auto simp: slots)
      from Cons.IH[OF a]
      have "concat (map segmentSlots (setSegmentPoint (ci + 1) idx p segs)) ! nat (idx - (ci + 1)) = p" .
      moreover have "nat (idx - ci) = Suc (nat (idx - (ci + 1)))" using a by simp
      ultimately show ?thesis using None False by (simp add: slots)
    qed
  next
    case (Some b)
    show ?thesis
    proof (cases "ci = idx \<or> ci + 1 = idx")
      case True
      with Some show ?thesis by (auto simp: slots)
    next
      case False
      with Cons.prems Some
      have a: "ci + 2 \<le> idx" "idx < ci + 2 + int (length (concat (map segmentSlots segs)))"
        by (auto simp: slots)
      from Cons.IH[OF a]
      have "concat (map segmentSlots (setSegmentPoint (ci + 2) idx p segs)) ! nat (idx - (ci + 2)) = p" .
      moreover have "nat (idx - ci) = Suc (Suc (nat (idx - (ci + 2))))" using a by simp
      ultimately show ?thesis using Some False by (simp add: slots)
    qed
  qed
qed

lemma setSegmentPoint_out_of_range:
  "idx < ci \<or> ci + int (length (concat (map segmentSlots segs))) \<le> idx \<Longrightarrow>
   setSegmentPoint ci idx p segs = segs"
  by (induction segs arbitrary: ci) (auto simp: slots split: option.splits)

lemma identifySegmentPoint_out_of_range:
  "idx < ci \<or> ci + int (length (concat (map segmentSlots segs))) \<le> idx \<Longrightarrow>
   identifySegmentPoint ci si idx segs = None"
  by (induction segs arbitrary: ci si) (auto simp: slots split: option.splits)

lemma identify_bulge:
  "k < length segs \<Longrightarrow> bulge (segs ! k) = Some b \<Longrightarrow>
   identifySegmentPoint ci si (ci + int (length (concat (map segmentSlots (take k segs))))) segs
     = Some (BulgePoint (si + k))"
proof (induction segs arbitrary: ci si k)
  case Nil
  then show ?case by simp
next
  case (Cons seg segs)
  show ?case
  proof (cases k)
    case 0
    with Cons.prems show ?thesis by simp
  next
    case (Suc k')
    with Cons.prems have k': "k' < length segs" "bulge (segs ! k') = Some b" by simp_all
    show ?thesis
    proof (cases "bulge seg")
      case None
      from Cons.IH[OF k', of "ci + 1" "Suc si"] None Suc show ?thesis
        by (simp add: slots add.assoc)
    next
      case (Some b0)
      from Cons.IH[OF k', of "ci + 2" "Suc si"] Some Suc show ?thesis
        by (simp add: slots add.assoc)
    qed
  qed
qed

lemma identify_end:
  "k < length segs \<Longrightarrow>
   identifySegmentPoint ci si
     (ci + int (length (concat (map segmentSlots (take k segs))))
         + (case bulge (segs ! k) of Some b \<Rightarrow> 1 | None \<Rightarrow> 0)) segs
     = Some (EndPoint (si + k))"
proof (induction segs arbitrary: ci si k)
  case Nil
  then show ?case by simp
next
  case (Cons seg segs)
  show ?case
  proof (cases k)
    case 0
    then show ?thesis by (simp split: option.splits)
  next
    case (Suc k')
    with Cons.prems have k': "k' < length segs" by simp
    show ?thesis
    proof (cases "bulge seg")
      case None
      from Cons.IH[OF k', of "ci + 1" "Suc si"] None Suc show ?thesis
        by (simp add: slots add.assoc split: option.splits)
    next
      case (Some b0)
      from Cons.IH[OF k', of "ci + 2" "Suc si"] Some Suc show ?thesis
        by (simp add: slots add.assoc split: option.splits)
    qed
  qed
qed

lemma slots_split:
  assumes "k < length segs"
  shows "concat (map segmentSlots segs)
      = concat (map segmentSlots (take k segs)) @ segmentSlots (segs ! k)
          @ concat (map segmentSlots (drop (Suc k) segs))"
proof -
  have "segs = take k segs @ (segs ! k) # drop (Suc k) segs"
    using assms by (simp add: id_take_nth_drop)
  then show ?thesis
    by (metis concat.simps(2) concat_append list.simps(9) map_append)
qed

lemma nth_slots_bulge:
  assumes "k < length segs" "bulge (segs ! k) = Some b"
  shows "concat (map segmentSlots segs) ! length (concat (map segmentSlots (take k segs))) = b"
  using slots_split[OF assms(1)] assms(2) by (simp add: nth_append slots)

lemma nth_slots_end:
  assumes "k < length segs"
  shows "concat (map segmentSlots segs) !
           (length (concat (map segmentSlots (take k segs)))
              + (case bulge (segs ! k) of Some b \<Rightarrow> 1 | None \<Rightarrow> 0))
           = seg_end (segs ! k)"
  using slots_split[OF assms] by (simp add: nth_append segmentSlots_def split: option.splits)

lemma slot_exhaustive:
  "ci \<le> idx \<Longrightarrow> idx < ci + int (length (concat (map segmentSlots segs))) \<Longrightarrow>
   \<exists>k < length segs.
      (bulge (segs ! k) \<noteq> None \<and> idx = ci + int (length (concat (map segmentSlots (take k segs)))))
    \<or> idx = ci + int (length (concat (map segmentSlots (take k segs))))
              + (case bulge (segs ! k) of Some b \<Rightarrow> 1 | None \<Rightarrow> 0)"
proof (induction segs arbitrary: ci)
  case Nil
  then show ?case by simp
next
  case (Cons seg segs)
  let ?n = "int (length (segmentSlots seg))"
  show ?case
  proof (cases "idx < ci + ?n")
    case True
    with Cons.prems(1)
    have "(bulge seg \<noteq> None \<and> idx = ci)
        \<or> idx = ci + (case bulge seg of Some b \<Rightarrow> 1 | None \<Rightarrow> 0)"
      by (auto simp: segmentSlots_def split: option.splits)
    then show ?thesis by (intro exI[of _ 0]) auto
  next
    case False
    with Cons.prems
    have a: "ci + ?n \<le> idx" "idx < ci + ?n + int (length (concat (map segmentSlots segs)))"
      by auto
    from Cons.IH[OF a] obtain k where k: "k < length segs"
      "(bulge (segs ! k) \<noteq> None
          \<and> idx = ci + ?n + int (length (concat (map segmentSlots (take k segs)))))
       \<or> idx = ci + ?n + int (length (concat (map segmentSlots (take k segs))))
              + (case bulge (segs ! k) of Some b \<Rightarrow> 1 | None \<Rightarrow> 0)" by blast
    then show ?thesis by (intro exI[of _ "Suc k"]) (auto simp: add.assoc)
  qed
qed

section \<open>Point model: writing and flattening\<close>

text \<open>
  Claim C1, evaluated on the code. The repository's test "moving start of closed polyline
  with arc updates closing segment end" writes index 0 of the closed triangle, whose
  closing segment ends at \<open>start\<close>, and expects the closing segment's end to follow.
  \<open>setMeasurementPoint\<close> moves \<open>start\<close> to \<open>(5,5)\<close> and leaves the closing segment's end
  at \<open>(0,0)\<close>: the closing segment no longer ends at \<open>start\<close>.
\<close>

theorem setMeasurementPoint_explicit_close_start:
  "seg_end (last (segments closedArcTriangle)) = start closedArcTriangle
   \<and> closed_flag closedArcTriangle = Some True
   \<and> setMeasurementPoint (Polyline closedArcTriangle) 0 \<lparr>x = 5, y = 5\<rparr>
       = Polyline (closedArcTriangle\<lparr>start := \<lparr>x = 5, y = 5\<rparr>\<rparr>)
   \<and> seg_end (last (segments (closedArcTriangle\<lparr>start := \<lparr>x = 5, y = 5\<rparr>\<rparr>))) = \<lparr>x = 0, y = 0\<rparr>
   \<and> seg_end (last (segments (closedArcTriangle\<lparr>start := \<lparr>x = 5, y = 5\<rparr>\<rparr>)))
        \<noteq> start (closedArcTriangle\<lparr>start := \<lparr>x = 5, y = 5\<rparr>\<rparr>)"
  by (simp add: closedArcTriangle_def)

text \<open>
  Claim C2, evaluated on the code. The repository's test "closed polyline with arc does
  NOT duplicate start/end point" expects four points for the closed triangle.
  \<open>getMeasurementPoints\<close> returns five: the closing segment's end, equal to \<open>start\<close>,
  is listed again as the last point.
\<close>

theorem getMeasurementPoints_explicit_close_keeps_duplicate:
  "seg_end (last (segments closedArcTriangle)) = start closedArcTriangle
   \<and> closed_flag closedArcTriangle = Some True
   \<and> getMeasurementPoints (Polyline closedArcTriangle)
       = [\<lparr>x = 0, y = 0\<rparr>, \<lparr>x = 100, y = 0\<rparr>, \<lparr>x = 50, y = 80\<rparr>, \<lparr>x = 10, y = 40\<rparr>, \<lparr>x = 0, y = 0\<rparr>]
   \<and> last (getMeasurementPoints (Polyline closedArcTriangle)) = start closedArcTriangle"
  by (simp add: closedArcTriangle_def pushSegment_def)

lemma setMeasurementPoint_start_only:
  "setMeasurementPoint (Polyline m) 0 p = Polyline (m\<lparr>start := p\<rparr>)"
  by simp

text \<open>
  The implicit-close shape, where both claims hold on the code: writing index 0 changes
  \<open>start\<close> only, and every vertex is listed.
\<close>

lemma setMeasurementPoint_implicit_close_start:
  "setMeasurementPoint (Polyline closedStraightTriangle) 0 \<lparr>x = 5, y = 5\<rparr>
     = Polyline (closedStraightTriangle\<lparr>start := \<lparr>x = 5, y = 5\<rparr>\<rparr>)
   \<and> seg_end (last (segments (closedStraightTriangle\<lparr>start := \<lparr>x = 5, y = 5\<rparr>\<rparr>)))
       = \<lparr>x = 50, y = 80\<rparr>"
  by (simp add: closedStraightTriangle_def)

lemma getMeasurementPoints_implicit_close:
  "getMeasurementPoints (Polyline closedStraightTriangle)
     = [\<lparr>x = 0, y = 0\<rparr>, \<lparr>x = 100, y = 0\<rparr>, \<lparr>x = 50, y = 80\<rparr>]"
  by (simp add: closedStraightTriangle_def pushSegment_def)

lemma getMeasurementPoints_length:
  "length (getMeasurementPoints (Polyline m))
     = 1 + length (segments m) + length (filter (\<lambda>seg. bulge seg \<noteq> None) (segments m))"
proof -
  have "length (concat (map segmentSlots segs))
          = length segs + length (filter (\<lambda>seg. bulge seg \<noteq> None) segs)" for segs
    by (induction segs) (auto simp: segmentSlots_def split: option.splits)
  then show ?thesis by (simp add: foldl_pushSegment)
qed

text \<open>
  Claim C3 as stated fails for the edge point of a circle: index 1 is valid, and writing
  \<open>(30,40)\<close> there on the circle of centre \<open>(0,0)\<close> stores the radius 50 only, so
  the flattened point 1 is \<open>(50,0)\<close>, not \<open>(30,40)\<close>.
\<close>

theorem setMeasurementPoint_circle_edge_counterexample:
  "1 < length (getMeasurementPoints (Circle circle50))
   \<and> getMeasurementPoints (setMeasurementPoint (Circle circle50) 1 \<lparr>x = 30, y = 40\<rparr>) ! 1
       = \<lparr>x = 50, y = 0\<rparr>
   \<and> getMeasurementPoints (setMeasurementPoint (Circle circle50) 1 \<lparr>x = 30, y = 40\<rparr>) ! 1
       \<noteq> \<lparr>x = 30, y = 40\<rparr>"
  by (simp add: circle50_def)

text \<open>
  Claim C3, amended. For every measurement, every index valid for its flattened list and
  every point \<open>p\<close>: after \<open>setMeasurementPoint\<close> the flattened point at that index is
  \<open>p\<close>, for a polyline, a rectangle and the centre (index 0) of a circle. At index 1 of a
  circle only the radius is stored, as the distance from the centre to \<open>p\<close>, and the
  flattened point 1 is the point at that distance to the right of the centre.
\<close>

theorem setMeasurementPoint_roundtrip:
  assumes "0 \<le> idx" and "idx < int (length (getMeasurementPoints m))"
  shows "getMeasurementPoints (setMeasurementPoint m idx p) ! nat idx =
           (case m of
              Circle c \<Rightarrow>
                if idx = 1
                then \<lparr>x = x (center c) + dist_pt (center c) p, y = y (center c)\<rparr>
                else p
            | _ \<Rightarrow> p)"
proof (cases m)
  case (Polyline pm)
  show ?thesis
  proof (cases "idx = 0")
    case True
    with Polyline show ?thesis by (simp add: foldl_pushSegment)
  next
    case False
    with assms Polyline
    have a: "1 \<le> idx" "idx < 1 + int (length (concat (map segmentSlots (segments pm))))"
      by (simp_all add: foldl_pushSegment)
    have "nat idx = Suc (nat (idx - 1))" using a by simp
    with nth_slots_setSegmentPoint[OF a, of p] Polyline False show ?thesis
      by (simp add: foldl_pushSegment)
  qed
next
  case (Rectangle rm)
  with assms have "idx = 0 \<or> idx = 1" by auto
  with Rectangle show ?thesis by auto
next
  case (Circle cm)
  with assms have "idx = 0 \<or> idx = 1" by auto
  with Circle show ?thesis by (auto simp: dist_pt_def Let_def)
qed

text \<open>
  Witness for C3: index 3 (the closing bulge) of the closed triangle, and the edge point
  of the circle.
\<close>

theorem setMeasurementPoint_roundtrip_witness:
  "getMeasurementPoints (setMeasurementPoint (Polyline closedArcTriangle) 3 \<lparr>x = 7, y = 9\<rparr>) ! 3
      = \<lparr>x = 7, y = 9\<rparr>
   \<and> getMeasurementPoints (setMeasurementPoint (Circle circle50) 1 \<lparr>x = 30, y = 40\<rparr>) ! 1
      = \<lparr>x = 0 + dist_pt \<lparr>x = 0, y = 0\<rparr> \<lparr>x = 30, y = 40\<rparr>, y = 0\<rparr>"
proof -
  have a: "(0::int) \<le> 3" "3 < int (length (getMeasurementPoints (Polyline closedArcTriangle)))"
    by (simp_all add: closedArcTriangle_def pushSegment_def)
  have b: "(0::int) \<le> 1" "1 < int (length (getMeasurementPoints (Circle circle50)))"
    by simp_all
  from setMeasurementPoint_roundtrip[OF a, of "\<lparr>x = 7, y = 9\<rparr>"]
       setMeasurementPoint_roundtrip[OF b, of "\<lparr>x = 30, y = 40\<rparr>"]
  show ?thesis by (simp add: circle50_def)
qed

text \<open>
  Claim C10. For every polyline and every index that names no flattened control point
  (negative, or at least the length of the flattened list), \<open>setMeasurementPoint\<close> and
  \<open>removePolylinePoint\<close> both return the polyline unchanged: \<open>start\<close>, every segment
  and the closed flag.
\<close>

theorem invalid_index_unchanged:
  assumes "idx < 0 \<or> int (length (getMeasurementPoints (Polyline m))) \<le> idx"
  shows "setMeasurementPoint (Polyline m) idx p = Polyline m \<and> removePolylinePoint m idx = m"
proof -
  from assms have nz: "idx \<noteq> 0" by (auto simp: foldl_pushSegment)
  from assms
  have r: "idx < 1 \<or> 1 + int (length (concat (map segmentSlots (segments m)))) \<le> idx"
    by (auto simp: foldl_pushSegment)
  have "setSegmentPoint 1 idx p (segments m) = segments m"
    using r by (rule setSegmentPoint_out_of_range)
  moreover have "identifySegmentPoint 1 0 idx (segments m) = None"
    using r by (rule identifySegmentPoint_out_of_range)
  ultimately show ?thesis using nz
    by (simp add: removePolylinePoint_def identifyPolylinePoint_def)
qed

text \<open>Witness for C10: indices 5 and -1 on the closed triangle, which has five points.\<close>

theorem invalid_index_unchanged_witness:
  "setMeasurementPoint (Polyline closedArcTriangle) 5 \<lparr>x = 1, y = 1\<rparr> = Polyline closedArcTriangle
   \<and> removePolylinePoint closedArcTriangle 5 = closedArcTriangle
   \<and> setMeasurementPoint (Polyline closedArcTriangle) (- 1) \<lparr>x = 1, y = 1\<rparr> = Polyline closedArcTriangle
   \<and> removePolylinePoint closedArcTriangle (- 1) = closedArcTriangle"
proof -
  have a: "5 < (0::int) \<or> int (length (getMeasurementPoints (Polyline closedArcTriangle))) \<le> 5"
    by (simp add: closedArcTriangle_def pushSegment_def)
  have b: "- 1 < (0::int) \<or> int (length (getMeasurementPoints (Polyline closedArcTriangle))) \<le> - 1"
    by simp
  from invalid_index_unchanged[OF a] invalid_index_unchanged[OF b] show ?thesis by blast
qed

section \<open>Point model: removing a point\<close>

lemma removePolylinePoint_bulge:
  assumes "k < length (segments m)" "bulge (segments m ! k) = Some b"
  shows "removePolylinePoint m (bulgeIndex m k)
           = m\<lparr>segments := (segments m)[k := (segments m ! k)\<lparr>bulge := None\<rparr>]\<rparr>"
proof -
  have "bulgeIndex m k \<noteq> 0" by (simp add: bulgeIndex_eq)
  moreover have "identifySegmentPoint 1 0 (bulgeIndex m k) (segments m) = Some (BulgePoint k)"
    using identify_bulge[OF assms, of 1 0] by (simp add: bulgeIndex_eq)
  ultimately show ?thesis by (simp add: removePolylinePoint_def identifyPolylinePoint_def)
qed

lemma removePolylinePoint_end:
  assumes "k < length (segments m)"
  shows "removePolylinePoint m (endIndex m k)
           = m\<lparr>segments := take k (segments m) @ drop (Suc k) (segments m)\<rparr>"
proof -
  have "endIndex m k \<noteq> 0" by (simp add: endIndex_def bulgeIndex_eq split: option.splits)
  moreover have "identifySegmentPoint 1 0 (endIndex m k) (segments m) = Some (EndPoint k)"
    using identify_end[OF assms, of 1 0] by (simp add: endIndex_def bulgeIndex_eq)
  ultimately show ?thesis
    by (simp add: removePolylinePoint_def identifyPolylinePoint_def splice1_def)
qed

lemma removePolylinePoint_start:
  "removePolylinePoint m 0 =
     (case segments m of [] \<Rightarrow> m | seg0 # rest \<Rightarrow> m\<lparr>start := seg_end seg0, segments := rest\<rparr>)"
  by (simp add: removePolylinePoint_def identifyPolylinePoint_def splice1_def split: list.splits)

lemma points_at_bulgeIndex:
  assumes "k < length (segments m)" "bulge (segments m ! k) = Some b"
  shows "getMeasurementPoints (Polyline m) ! nat (bulgeIndex m k) = b"
  using nth_slots_bulge[OF assms] by (simp add: bulgeIndex_eq foldl_pushSegment nat_add_distrib)

lemma points_at_endIndex:
  assumes "k < length (segments m)"
  shows "getMeasurementPoints (Polyline m) ! nat (endIndex m k) = seg_end (segments m ! k)"
  using nth_slots_end[OF assms]
  by (simp add: endIndex_def bulgeIndex_eq foldl_pushSegment nat_add_distrib split: option.splits)

lemma index_exhaustive:
  assumes "0 < idx" "idx < int (length (getMeasurementPoints (Polyline m)))"
  shows "\<exists>k < length (segments m).
           (bulge (segments m ! k) \<noteq> None \<and> idx = bulgeIndex m k) \<or> idx = endIndex m k"
proof -
  from assms have a: "1 \<le> idx" "idx < 1 + int (length (concat (map segmentSlots (segments m))))"
    by (simp_all add: foldl_pushSegment)
  from slot_exhaustive[OF a] show ?thesis
    by (simp add: endIndex_def bulgeIndex_eq)
qed

text \<open>
  Claim C8. For every polyline: (1) removing the bulge index of a segment that has a
  bulge clears that bulge and keeps every segment; (2) removing index 0 of a polyline
  with at least one segment drops segment 0 and makes its end the new start; (3)
  removing the end index of segment \<open>k\<close> drops exactly that segment; (4) removing the end
  of the only segment leaves no segment; (5) every valid index other than 0 is the bulge
  index or the end index of some segment, so the cases are exhaustive. The bulge and end
  indices are the positions of that bulge and that end in \<open>getMeasurementPoints\<close>.
\<close>

theorem removePolylinePoint_by_kind:
  "(\<forall>k b. k < length (segments m) \<and> bulge (segments m ! k) = Some b \<longrightarrow>
       getMeasurementPoints (Polyline m) ! nat (bulgeIndex m k) = b
     \<and> removePolylinePoint m (bulgeIndex m k)
         = m\<lparr>segments := (segments m)[k := (segments m ! k)\<lparr>bulge := None\<rparr>]\<rparr>
     \<and> length (segments (removePolylinePoint m (bulgeIndex m k))) = length (segments m))
 \<and> (\<forall>seg0 rest. segments m = seg0 # rest \<longrightarrow>
       removePolylinePoint m 0 = m\<lparr>start := seg_end seg0, segments := rest\<rparr>)
 \<and> (\<forall>k. k < length (segments m) \<longrightarrow>
       getMeasurementPoints (Polyline m) ! nat (endIndex m k) = seg_end (segments m ! k)
     \<and> removePolylinePoint m (endIndex m k)
         = m\<lparr>segments := take k (segments m) @ drop (Suc k) (segments m)\<rparr>)
 \<and> (\<forall>seg0. segments m = [seg0] \<longrightarrow> segments (removePolylinePoint m (endIndex m 0)) = [])
 \<and> (\<forall>idx. 0 < idx \<and> idx < int (length (getMeasurementPoints (Polyline m))) \<longrightarrow>
       (\<exists>k < length (segments m).
           (bulge (segments m ! k) \<noteq> None \<and> idx = bulgeIndex m k) \<or> idx = endIndex m k))"
proof (intro conjI allI impI)
  fix k b assume a: "k < length (segments m) \<and> bulge (segments m ! k) = Some b"
  then show "getMeasurementPoints (Polyline m) ! nat (bulgeIndex m k) = b"
    using points_at_bulgeIndex[of k m b] by blast
  from a show r: "removePolylinePoint m (bulgeIndex m k)
         = m\<lparr>segments := (segments m)[k := (segments m ! k)\<lparr>bulge := None\<rparr>]\<rparr>"
    using removePolylinePoint_bulge by blast
  show "length (segments (removePolylinePoint m (bulgeIndex m k))) = length (segments m)"
    by (simp add: r)
next
  fix seg0 rest assume "segments m = seg0 # rest"
  then show "removePolylinePoint m 0 = m\<lparr>start := seg_end seg0, segments := rest\<rparr>"
    by (simp add: removePolylinePoint_start)
next
  fix k assume a: "k < length (segments m)"
  then show "getMeasurementPoints (Polyline m) ! nat (endIndex m k) = seg_end (segments m ! k)"
    by (rule points_at_endIndex)
  from a show "removePolylinePoint m (endIndex m k)
         = m\<lparr>segments := take k (segments m) @ drop (Suc k) (segments m)\<rparr>"
    by (rule removePolylinePoint_end)
next
  fix seg0 assume a: "segments m = [seg0]"
  then have "0 < length (segments m)" by simp
  from removePolylinePoint_end[OF this] a
  show "segments (removePolylinePoint m (endIndex m 0)) = []" by simp
next
  fix idx assume "0 < idx \<and> idx < int (length (getMeasurementPoints (Polyline m)))"
  then show "\<exists>k < length (segments m).
           (bulge (segments m ! k) \<noteq> None \<and> idx = bulgeIndex m k) \<or> idx = endIndex m k"
    using index_exhaustive by blast
qed

text \<open>
  Witness for C8 on the closed triangle: index 3 is the bulge of segment 2, index 0 the
  start, index 2 the end of segment 1; and on the one-segment polyline, whose only end
  is index 1.
\<close>

theorem removePolylinePoint_by_kind_witness:
  "removePolylinePoint closedArcTriangle 3
     = closedArcTriangle\<lparr>segments :=
         [\<lparr>seg_end = \<lparr>x = 100, y = 0\<rparr>, bulge = None\<rparr>,
          \<lparr>seg_end = \<lparr>x = 50, y = 80\<rparr>, bulge = None\<rparr>,
          \<lparr>seg_end = \<lparr>x = 0, y = 0\<rparr>, bulge = None\<rparr>]\<rparr>
   \<and> removePolylinePoint closedArcTriangle 0
     = closedArcTriangle\<lparr>start := \<lparr>x = 100, y = 0\<rparr>, segments :=
         [\<lparr>seg_end = \<lparr>x = 50, y = 80\<rparr>, bulge = None\<rparr>,
          \<lparr>seg_end = \<lparr>x = 0, y = 0\<rparr>, bulge = Some \<lparr>x = 10, y = 40\<rparr>\<rparr>]\<rparr>
   \<and> removePolylinePoint closedArcTriangle 2
     = closedArcTriangle\<lparr>segments :=
         [\<lparr>seg_end = \<lparr>x = 100, y = 0\<rparr>, bulge = None\<rparr>,
          \<lparr>seg_end = \<lparr>x = 0, y = 0\<rparr>, bulge = Some \<lparr>x = 10, y = 40\<rparr>\<rparr>]\<rparr>
   \<and> segments (removePolylinePoint shortOpenPolyline 1) = []"
proof -
  have i: "bulgeIndex closedArcTriangle 2 = 3" "endIndex closedArcTriangle (Suc 0) = 2"
    by (simp_all add: endIndex_def bulgeIndex_def closedArcTriangle_def pushSegment_def)
  have s: "segments closedArcTriangle =
         [\<lparr>seg_end = \<lparr>x = 100, y = 0\<rparr>, bulge = None\<rparr>,
          \<lparr>seg_end = \<lparr>x = 50, y = 80\<rparr>, bulge = None\<rparr>,
          \<lparr>seg_end = \<lparr>x = 0, y = 0\<rparr>, bulge = Some \<lparr>x = 10, y = 40\<rparr>\<rparr>]"
    by (simp add: closedArcTriangle_def)
  note t = removePolylinePoint_by_kind[of closedArcTriangle]
  from t have "2 < length (segments closedArcTriangle)
        \<and> bulge (segments closedArcTriangle ! 2) = Some \<lparr>x = 10, y = 40\<rparr> \<longrightarrow>
     removePolylinePoint closedArcTriangle (bulgeIndex closedArcTriangle 2)
         = closedArcTriangle\<lparr>segments := (segments closedArcTriangle)[2 := (segments closedArcTriangle ! 2)\<lparr>bulge := None\<rparr>]\<rparr>"
    by blast
  then have a: "removePolylinePoint closedArcTriangle 3
     = closedArcTriangle\<lparr>segments :=
         [\<lparr>seg_end = \<lparr>x = 100, y = 0\<rparr>, bulge = None\<rparr>,
          \<lparr>seg_end = \<lparr>x = 50, y = 80\<rparr>, bulge = None\<rparr>,
          \<lparr>seg_end = \<lparr>x = 0, y = 0\<rparr>, bulge = None\<rparr>]\<rparr>"
    by (simp add: i s)
  from t have "segments closedArcTriangle = hd (segments closedArcTriangle) # tl (segments closedArcTriangle) \<longrightarrow>
       removePolylinePoint closedArcTriangle 0 = closedArcTriangle\<lparr>start := seg_end (hd (segments closedArcTriangle)), segments := tl (segments closedArcTriangle)\<rparr>"
    by blast
  then have b: "removePolylinePoint closedArcTriangle 0
     = closedArcTriangle\<lparr>start := \<lparr>x = 100, y = 0\<rparr>, segments :=
         [\<lparr>seg_end = \<lparr>x = 50, y = 80\<rparr>, bulge = None\<rparr>,
          \<lparr>seg_end = \<lparr>x = 0, y = 0\<rparr>, bulge = Some \<lparr>x = 10, y = 40\<rparr>\<rparr>]\<rparr>"
    by (simp add: s)
  from t have "1 < length (segments closedArcTriangle) \<longrightarrow>
      removePolylinePoint closedArcTriangle (endIndex closedArcTriangle 1)
         = closedArcTriangle\<lparr>segments := take 1 (segments closedArcTriangle) @ drop (Suc 1) (segments closedArcTriangle)\<rparr>"
    by blast
  then have c: "removePolylinePoint closedArcTriangle 2
     = closedArcTriangle\<lparr>segments :=
         [\<lparr>seg_end = \<lparr>x = 100, y = 0\<rparr>, bulge = None\<rparr>,
          \<lparr>seg_end = \<lparr>x = 0, y = 0\<rparr>, bulge = Some \<lparr>x = 10, y = 40\<rparr>\<rparr>]\<rparr>"
    by (simp add: i s)
  have j: "endIndex shortOpenPolyline 0 = 1"
    by (simp add: endIndex_def bulgeIndex_def shortOpenPolyline_def)
  from removePolylinePoint_by_kind[of shortOpenPolyline]
  have "segments shortOpenPolyline = [\<lparr>seg_end = \<lparr>x = 3, y = 4\<rparr>, bulge = None\<rparr>] \<longrightarrow>
      segments (removePolylinePoint shortOpenPolyline (endIndex shortOpenPolyline 0)) = []"
    by blast
  then have d: "segments (removePolylinePoint shortOpenPolyline 1) = []"
    by (simp add: j) (simp add: shortOpenPolyline_def)
  from a b c d show ?thesis by blast
qed

section \<open>Circumscribed circle\<close>

lemma circumcentre_equidistant_12:
  fixes ax ay bx b_y c_x c_y :: real
  defines "D \<equiv> 2 * (ax * (b_y - c_y) + bx * (c_y - ay) + c_x * (ay - b_y))"
  defines "ux \<equiv> ((ax * ax + ay * ay) * (b_y - c_y) + (bx * bx + b_y * b_y) * (c_y - ay)
                      + (c_x * c_x + c_y * c_y) * (ay - b_y)) / D"
  defines "uy \<equiv> ((ax * ax + ay * ay) * (c_x - bx) + (bx * bx + b_y * b_y) * (ax - c_x)
                      + (c_x * c_x + c_y * c_y) * (bx - ax)) / D"
  assumes "D \<noteq> 0"
  shows "(bx - ux)\<^sup>2 + (b_y - uy)\<^sup>2 = (ax - ux)\<^sup>2 + (ay - uy)\<^sup>2"
    and "(c_x - ux)\<^sup>2 + (c_y - uy)\<^sup>2 = (ax - ux)\<^sup>2 + (ay - uy)\<^sup>2"
proof -
  let ?Nx = "(ax * ax + ay * ay) * (b_y - c_y) + (bx * bx + b_y * b_y) * (c_y - ay)
                      + (c_x * c_x + c_y * c_y) * (ay - b_y)"
  let ?Ny = "(ax * ax + ay * ay) * (c_x - bx) + (bx * bx + b_y * b_y) * (ax - c_x)
                      + (c_x * c_x + c_y * c_y) * (bx - ax)"
  have ux: "ux * D = ?Nx" and uy: "uy * D = ?Ny" using assms by (simp_all)
  have "2 * (bx - ax) * ?Nx + 2 * (b_y - ay) * ?Ny = (bx * bx + b_y * b_y - ax * ax - ay * ay) * D"
    unfolding D_def by (simp add: algebra_simps)
  then have lin1: "2 * (bx - ax) * (ux * D) + 2 * (b_y - ay) * (uy * D) = (bx * bx + b_y * b_y - ax * ax - ay * ay) * D"
    by (simp only: ux uy)
  have "2 * (c_x - ax) * ?Nx + 2 * (c_y - ay) * ?Ny = (c_x * c_x + c_y * c_y - ax * ax - ay * ay) * D"
    unfolding D_def by (simp add: algebra_simps)
  then have lin2: "2 * (c_x - ax) * (ux * D) + 2 * (c_y - ay) * (uy * D) = (c_x * c_x + c_y * c_y - ax * ax - ay * ay) * D"
    by (simp only: ux uy)
  have "(2 * (bx - ax) * ux + 2 * (b_y - ay) * uy) * D = (bx * bx + b_y * b_y - ax * ax - ay * ay) * D"
    using lin1 by (simp add: algebra_simps)
  then have e1: "2 * (bx - ax) * ux + 2 * (b_y - ay) * uy = bx * bx + b_y * b_y - ax * ax - ay * ay"
    using \<open>D \<noteq> 0\<close> by simp
  have "(2 * (c_x - ax) * ux + 2 * (c_y - ay) * uy) * D = (c_x * c_x + c_y * c_y - ax * ax - ay * ay) * D"
    using lin2 by (simp add: algebra_simps)
  then have e2: "2 * (c_x - ax) * ux + 2 * (c_y - ay) * uy = c_x * c_x + c_y * c_y - ax * ax - ay * ay"
    using \<open>D \<noteq> 0\<close> by simp
  show "(bx - ux)\<^sup>2 + (b_y - uy)\<^sup>2 = (ax - ux)\<^sup>2 + (ay - uy)\<^sup>2"
    using e1 by (simp add: power2_eq_square algebra_simps)
  show "(c_x - ux)\<^sup>2 + (c_y - uy)\<^sup>2 = (ax - ux)\<^sup>2 + (ay - uy)\<^sup>2"
    using e2 by (simp add: power2_eq_square algebra_simps)
qed

text \<open>
  Claim C4. For every three points: when the determinant of the bisector system has
  magnitude below \<open>1e-10\<close> (collinear points among them) the result is \<open>null\<close>;
  otherwise the result is a circle whose centre is at distance \<open>r\<close> from each of the
  three points. Over the reals the distances are equal exactly.
\<close>

theorem circumscribedCircle_equidistant:
  "(\<bar>bisectorDet p1 p2 p3\<bar> < 1 / 10 ^ 10 \<longrightarrow> circumscribedCircle p1 p2 p3 = None)
 \<and> (1 / 10 ^ 10 \<le> \<bar>bisectorDet p1 p2 p3\<bar> \<longrightarrow>
      (\<exists>c. circumscribedCircle p1 p2 p3 = Some c
           \<and> dist_pt p1 \<lparr>x = cx c, y = cy c\<rparr> = r c
           \<and> dist_pt p2 \<lparr>x = cx c, y = cy c\<rparr> = r c
           \<and> dist_pt p3 \<lparr>x = cx c, y = cy c\<rparr> = r c))"
proof (intro conjI impI)
  assume "\<bar>bisectorDet p1 p2 p3\<bar> < 1 / 10 ^ 10"
  then show "circumscribedCircle p1 p2 p3 = None"
    by (simp add: circumscribedCircle_def bisectorDet_def Let_def)
next
  assume big: "1 / 10 ^ 10 \<le> \<bar>bisectorDet p1 p2 p3\<bar>"
  define D where "D = 2 * (x p1 * (y p2 - y p3) + x p2 * (y p3 - y p1) + x p3 * (y p1 - y p2))"
  define ux where "ux = ((x p1 * x p1 + y p1 * y p1) * (y p2 - y p3)
                       + (x p2 * x p2 + y p2 * y p2) * (y p3 - y p1)
                       + (x p3 * x p3 + y p3 * y p3) * (y p1 - y p2)) / D"
  define uy where "uy = ((x p1 * x p1 + y p1 * y p1) * (x p3 - x p2)
                       + (x p2 * x p2 + y p2 * y p2) * (x p1 - x p3)
                       + (x p3 * x p3 + y p3 * y p3) * (x p2 - x p1)) / D"
  from big have nsmall: "\<not> \<bar>D\<bar> < 1 / 10 ^ 10" by (simp add: D_def bisectorDet_def)
  then have nz: "D \<noteq> 0" by auto
  have c: "circumscribedCircle p1 p2 p3
             = Some \<lparr>cx = ux, cy = uy, r = sqrt ((x p1 - ux)\<^sup>2 + (y p1 - uy)\<^sup>2)\<rparr>"
    using nsmall unfolding circumscribedCircle_def Let_def D_def ux_def uy_def by simp
  have e2: "(x p2 - ux)\<^sup>2 + (y p2 - uy)\<^sup>2 = (x p1 - ux)\<^sup>2 + (y p1 - uy)\<^sup>2"
    using circumcentre_equidistant_12(1)[where ax = "x p1" and ay = "y p1" and bx = "x p2" and b_y = "y p2" and c_x = "x p3" and c_y = "y p3"] nz
    unfolding D_def ux_def uy_def by simp
  have e3: "(x p3 - ux)\<^sup>2 + (y p3 - uy)\<^sup>2 = (x p1 - ux)\<^sup>2 + (y p1 - uy)\<^sup>2"
    using circumcentre_equidistant_12(2)[where ax = "x p1" and ay = "y p1" and bx = "x p2" and b_y = "y p2" and c_x = "x p3" and c_y = "y p3"] nz
    unfolding D_def ux_def uy_def by simp
  have sw: "(a - b)\<^sup>2 = (b - a)\<^sup>2" for a b :: real by (simp add: power2_commute)
  show "\<exists>c. circumscribedCircle p1 p2 p3 = Some c
           \<and> dist_pt p1 \<lparr>x = cx c, y = cy c\<rparr> = r c
           \<and> dist_pt p2 \<lparr>x = cx c, y = cy c\<rparr> = r c
           \<and> dist_pt p3 \<lparr>x = cx c, y = cy c\<rparr> = r c"
    using e2 e3 by (simp add: c dist_pt_def sw[of ux] sw[of uy])
qed

text \<open>
  Witness for C4: three points on a line, and the right triangle \<open>(0,0), (6,0), (0,8)\<close>.
\<close>

theorem circumscribedCircle_equidistant_witness:
  "circumscribedCircle \<lparr>x = 0, y = 0\<rparr> \<lparr>x = 1, y = 1\<rparr> \<lparr>x = 2, y = 2\<rparr> = None
   \<and> (\<exists>c. circumscribedCircle \<lparr>x = 0, y = 0\<rparr> \<lparr>x = 6, y = 0\<rparr> \<lparr>x = 0, y = 8\<rparr> = Some c
           \<and> dist_pt \<lparr>x = 0, y = 0\<rparr> \<lparr>x = cx c, y = cy c\<rparr> = r c
           \<and> dist_pt \<lparr>x = 6, y = 0\<rparr> \<lparr>x = cx c, y = cy c\<rparr> = r c
           \<and> dist_pt \<lparr>x = 0, y = 8\<rparr> \<lparr>x = cx c, y = cy c\<rparr> = r c)"
proof -
  have a: "\<bar>bisectorDet \<lparr>x = 0, y = 0\<rparr> \<lparr>x = 1, y = 1\<rparr> \<lparr>x = 2, y = 2\<rparr>\<bar> < 1 / 10 ^ 10"
    by (simp add: bisectorDet_def)
  have b: "1 / 10 ^ 10 \<le> \<bar>bisectorDet \<lparr>x = 0, y = 0\<rparr> \<lparr>x = 6, y = 0\<rparr> \<lparr>x = 0, y = 8\<rparr>\<bar>"
    by (simp add: bisectorDet_def)
  from circumscribedCircle_equidistant[of "\<lparr>x = 0, y = 0\<rparr>" "\<lparr>x = 1, y = 1\<rparr>" "\<lparr>x = 2, y = 2\<rparr>"] a
       circumscribedCircle_equidistant[of "\<lparr>x = 0, y = 0\<rparr>" "\<lparr>x = 6, y = 0\<rparr>" "\<lparr>x = 0, y = 8\<rparr>"] b
  show ?thesis by blast
qed


section \<open>Tangent at the start of a segment\<close>










section \<open>Release policy of a held arc\<close>

text \<open>
  Claim C6 as stated fails for a polyline with a single segment: its end \<open>(3,4)\<close> is
  within \<open>CLOSE_SNAP_RADIUS\<close> of \<open>start\<close> and shift is not held, but \<open>finalizeArc\<close> neither
  moves the end nor sets \<open>closed\<close>.
\<close>

theorem finalizeArc_single_segment_counterexample:
  "pointNear (seg_end (last (segments shortOpenPolyline))) (start shortOpenPolyline) CLOSE_SNAP_RADIUS
   \<and> finalizeArc shortOpenPolyline False False
       = (shortOpenPolyline, \<lparr>closed_result = False, removedDegenerate = False\<rparr>)
   \<and> closed_flag (fst (finalizeArc shortOpenPolyline False False)) \<noteq> Some True
   \<and> seg_end (last (segments (fst (finalizeArc shortOpenPolyline False False))))
        \<noteq> start shortOpenPolyline"
  by (simp add: finalizeArc_def shortOpenPolyline_def pointNear_def dist_pt_def CLOSE_SNAP_RADIUS_def)

text \<open>
  Claim C6, amended. On release of a held arc: (1) if the polyline has at least two
  segments, shift is not held and the last end is within 24 units of \<open>start\<close>, the last
  end is set to \<open>start\<close> and \<open>closed\<close> to true, whatever the new-segment flag; (2)
  otherwise, if the segment was created in new-segment mode, the polyline has at least
  two segments and the last end is less than 2 units from the previous segment's end,
  the last segment is removed; (3) otherwise the polyline is unchanged.
\<close>

theorem finalizeArc_policy:
  fixes m :: polyline_measurement and shiftHeld wasNewSegment :: bool
  defines "closing \<equiv> 2 \<le> length (segments m) \<and> \<not> shiftHeld
                       \<and> dist_pt (seg_end (last (segments m))) (start m) \<le> 24"
  defines "degenerate \<equiv> wasNewSegment \<and> 2 \<le> length (segments m)
                       \<and> dist_pt (seg_end (segments m ! (length (segments m) - 2)))
                                  (seg_end (last (segments m))) < 2"
  shows "(closing \<longrightarrow>
            finalizeArc m shiftHeld wasNewSegment
              = (m\<lparr>segments := butlast (segments m) @ [(last (segments m))\<lparr>seg_end := start m\<rparr>],
                   closed_flag := Some True\<rparr>,
                 \<lparr>closed_result = True, removedDegenerate = False\<rparr>))
       \<and> (\<not> closing \<and> degenerate \<longrightarrow>
            finalizeArc m shiftHeld wasNewSegment
              = (m\<lparr>segments := butlast (segments m)\<rparr>,
                 \<lparr>closed_result = False, removedDegenerate = True\<rparr>))
       \<and> (\<not> closing \<and> \<not> degenerate \<longrightarrow>
            finalizeArc m shiftHeld wasNewSegment
              = (m, \<lparr>closed_result = False, removedDegenerate = False\<rparr>))"
  unfolding closing_def degenerate_def
  by (simp add: finalizeArc_def pointNear_def CLOSE_SNAP_RADIUS_def update_last_def)

text \<open>
  Witness for C6: a release near \<open>start\<close> that is also a degenerate new segment closes
  the polyline; a degenerate new segment far from \<open>start\<close> is removed; with shift held
  and no new segment nothing changes.
\<close>

theorem finalizeArc_policy_witness:
  "finalizeArc nearStartTapPolyline False True
     = (nearStartTapPolyline\<lparr>segments :=
            [\<lparr>seg_end = \<lparr>x = 2, y = 4\<rparr>, bulge = None\<rparr>,
             \<lparr>seg_end = \<lparr>x = 0, y = 0\<rparr>, bulge = None\<rparr>],
          closed_flag := Some True\<rparr>,
        \<lparr>closed_result = True, removedDegenerate = False\<rparr>)
   \<and> finalizeArc tapPolyline False True
     = (tapPolyline\<lparr>segments := [\<lparr>seg_end = \<lparr>x = 100, y = 0\<rparr>, bulge = None\<rparr>]\<rparr>,
        \<lparr>closed_result = False, removedDegenerate = True\<rparr>)
   \<and> finalizeArc nearStartTapPolyline True False
     = (nearStartTapPolyline, \<lparr>closed_result = False, removedDegenerate = False\<rparr>)"
proof -
  have d: "dist_pt \<lparr>x = 3, y = 4\<rparr> \<lparr>x = 0, y = 0\<rparr> = 5"
          "dist_pt \<lparr>x = 2, y = 4\<rparr> \<lparr>x = 3, y = 4\<rparr> = 1"
          "dist_pt \<lparr>x = 101, y = 0\<rparr> \<lparr>x = 0, y = 0\<rparr> = 101"
          "dist_pt \<lparr>x = 100, y = 0\<rparr> \<lparr>x = 101, y = 0\<rparr> = 1"
    by (simp_all add: dist_pt_def)
  from finalizeArc_policy[of nearStartTapPolyline False True]
  have a: "finalizeArc nearStartTapPolyline False True
     = (nearStartTapPolyline\<lparr>segments :=
            [\<lparr>seg_end = \<lparr>x = 2, y = 4\<rparr>, bulge = None\<rparr>,
             \<lparr>seg_end = \<lparr>x = 0, y = 0\<rparr>, bulge = None\<rparr>],
          closed_flag := Some True\<rparr>,
        \<lparr>closed_result = True, removedDegenerate = False\<rparr>)"
    by (simp add: nearStartTapPolyline_def d)
  from finalizeArc_policy[of tapPolyline False True]
  have b: "finalizeArc tapPolyline False True
     = (tapPolyline\<lparr>segments := [\<lparr>seg_end = \<lparr>x = 100, y = 0\<rparr>, bulge = None\<rparr>]\<rparr>,
        \<lparr>closed_result = False, removedDegenerate = True\<rparr>)"
    by (simp add: tapPolyline_def d)
  from finalizeArc_policy[of nearStartTapPolyline True False]
  have c: "finalizeArc nearStartTapPolyline True False
     = (nearStartTapPolyline, \<lparr>closed_result = False, removedDegenerate = False\<rparr>)"
    by simp
  from a b c show ?thesis by blast
qed

section \<open>Tangent-constrained bulge\<close>

lemma Math_atan2_polar:
  fixes X Y R :: real
  assumes R: "0 < R" and on: "X\<^sup>2 + Y\<^sup>2 = R\<^sup>2"
  shows "R * cos (Math_atan2 Y X) = X" and "R * sin (Math_atan2 Y X) = Y"
proof -
  have key: "sqrt (1 + (Y / X)\<^sup>2) = R / \<bar>X\<bar>" if "X \<noteq> 0"
  proof -
    have "1 + (Y / X)\<^sup>2 = (X\<^sup>2 + Y\<^sup>2) / X\<^sup>2"
      using that by (simp add: power_divide add_divide_distrib)
    also have "\<dots> = (R / \<bar>X\<bar>)\<^sup>2" by (simp add: on power_divide)
    finally have "sqrt (1 + (Y / X)\<^sup>2) = \<bar>R / \<bar>X\<bar>\<bar>" by (simp only: real_sqrt_abs)
    then show ?thesis using R by simp
  qed
  have c: "R * cos (arctan (Y / X)) = \<bar>X\<bar>" if "X \<noteq> 0"
    using key[OF that] that R by (simp add: cos_arctan)
  have s: "R * sin (arctan (Y / X)) = Y * \<bar>X\<bar> / X" if "X \<noteq> 0"
    using key[OF that] that R by (simp add: sin_arctan)
  consider "0 < X" | "X < 0" "0 \<le> Y" | "X < 0" "Y < 0" | "X = 0" "0 < Y" | "X = 0" "Y < 0" | "X = 0" "Y = 0"
    by linarith
  then have "R * cos (Math_atan2 Y X) = X \<and> R * sin (Math_atan2 Y X) = Y"
  proof cases
    case 1
    then show ?thesis using c s by (simp add: Math_atan2_def)
  next
    case 2
    then show ?thesis using c s by (simp add: Math_atan2_def)
  next
    case 3
    then show ?thesis using c s by (simp add: Math_atan2_def)
  next
    case 4
    with on R have "Y = R" by (simp add: power2_eq_iff_nonneg)
    with 4 show ?thesis by (simp add: Math_atan2_def)
  next
    case 5
    with on R have "(- Y)\<^sup>2 = R\<^sup>2" by simp
    with 5 R have "- Y = R" by (simp only: power2_eq_iff_nonneg)
    with 5 show ?thesis by (simp add: Math_atan2_def)
  next
    case 6
    with on R show ?thesis by simp
  qed
  then show "R * cos (Math_atan2 Y X) = X" and "R * sin (Math_atan2 Y X) = Y" by simp_all
qed

lemma normalizeAngle_shift: "\<exists>k::int. normalizeAngle a = a + 2 * pi * of_int k"
proof -
  define n where "n = trunc (a / (2 * pi))"
  have j: "js_rem a (2 * pi) = a + 2 * pi * of_int (- n)"
    by (simp add: js_rem_def n_def)
  show ?thesis
  proof (cases "js_rem a (2 * pi) < 0")
    case True
    then have "normalizeAngle a = a + 2 * pi * of_int (- n + 1)"
      using j by (simp add: normalizeAngle_def Let_def algebra_simps)
    then show ?thesis by blast
  next
    case False
    then have "normalizeAngle a = a + 2 * pi * of_int (- n)"
      using j by (simp add: normalizeAngle_def Let_def)
    then show ?thesis by blast
  qed
qed

lemma sweep_shift:
  "\<exists>k::int. (if normalizeAngle a = 0 then 2 * pi else normalizeAngle a) = a + 2 * pi * of_int k"
proof -
  obtain k :: int where k: "normalizeAngle a = a + 2 * pi * of_int k"
    using normalizeAngle_shift by blast
  show ?thesis
  proof (cases "normalizeAngle a = 0")
    case True
    with k have e: "2 * pi = a + 2 * pi * of_int (k + 1)" by (simp add: algebra_simps)
    have "(if normalizeAngle a = 0 then 2 * pi else normalizeAngle a) = 2 * pi"
      using True by simp
    also note e
    finally show ?thesis by (rule exI)
  next
    case False
    then have "(if normalizeAngle a = 0 then 2 * pi else normalizeAngle a) = normalizeAngle a"
      by simp
    also note k
    finally show ?thesis by (rule exI)
  qed
qed

lemma circumcentre_unique:
  fixes ax ay bx b_y c_x c_y Cx Cy R2 :: real
  defines "D \<equiv> 2 * (ax * (b_y - c_y) + bx * (c_y - ay) + c_x * (ay - b_y))"
  assumes a: "(ax - Cx)\<^sup>2 + (ay - Cy)\<^sup>2 = R2"
      and b: "(bx - Cx)\<^sup>2 + (b_y - Cy)\<^sup>2 = R2"
      and c: "(c_x - Cx)\<^sup>2 + (c_y - Cy)\<^sup>2 = R2"
      and nz: "D \<noteq> 0"
  shows "((ax * ax + ay * ay) * (b_y - c_y) + (bx * bx + b_y * b_y) * (c_y - ay)
            + (c_x * c_x + c_y * c_y) * (ay - b_y)) / D = Cx"
    and "((ax * ax + ay * ay) * (c_x - bx) + (bx * bx + b_y * b_y) * (ax - c_x)
            + (c_x * c_x + c_y * c_y) * (bx - ax)) / D = Cy"
proof -
  define K where "K = R2 - Cx * Cx - Cy * Cy"
  have sa: "ax * ax + ay * ay = K + 2 * Cx * ax + 2 * Cy * ay"
    using a by (simp add: K_def power2_eq_square algebra_simps)
  have sb: "bx * bx + b_y * b_y = K + 2 * Cx * bx + 2 * Cy * b_y"
    using b by (simp add: K_def power2_eq_square algebra_simps)
  have sc: "c_x * c_x + c_y * c_y = K + 2 * Cx * c_x + 2 * Cy * c_y"
    using c by (simp add: K_def power2_eq_square algebra_simps)
  have "(ax * ax + ay * ay) * (b_y - c_y) + (bx * bx + b_y * b_y) * (c_y - ay)
            + (c_x * c_x + c_y * c_y) * (ay - b_y) = Cx * D"
    unfolding sa sb sc D_def by (simp add: algebra_simps)
  then show "((ax * ax + ay * ay) * (b_y - c_y) + (bx * bx + b_y * b_y) * (c_y - ay)
            + (c_x * c_x + c_y * c_y) * (ay - b_y)) / D = Cx"
    using nz by simp
  have "(ax * ax + ay * ay) * (c_x - bx) + (bx * bx + b_y * b_y) * (ax - c_x)
            + (c_x * c_x + c_y * c_y) * (bx - ax) = Cy * D"
    unfolding sa sb sc D_def by (simp add: algebra_simps)
  then show "((ax * ax + ay * ay) * (c_x - bx) + (bx * bx + b_y * b_y) * (ax - c_x)
            + (c_x * c_x + c_y * c_y) * (bx - ax)) / D = Cy"
    using nz by simp
qed

lemma sin_cross: "cos a * sin b - cos b * sin a = sin (b - a)" for a b :: real
  by (simp add: sin_diff)

lemma det_three_angles:
  fixes a h :: real
  shows "cos a * (sin (a + h) - sin (a + 2 * h)) + cos (a + h) * (sin (a + 2 * h) - sin a)
           + cos (a + 2 * h) * (sin a - sin (a + h)) = 2 * sin h * (1 - cos h)"
proof -
  have "cos a * (sin (a + h) - sin (a + 2 * h)) + cos (a + h) * (sin (a + 2 * h) - sin a)
           + cos (a + 2 * h) * (sin a - sin (a + h))
      = (cos a * sin (a + h) - cos (a + h) * sin a)
        + (cos (a + h) * sin (a + 2 * h) - cos (a + 2 * h) * sin (a + h))
        - (cos a * sin (a + 2 * h) - cos (a + 2 * h) * sin a)"
    by (simp add: algebra_simps)
  also have "\<dots> = sin (a + h - a) + sin (a + 2 * h - (a + h)) - sin (a + 2 * h - a)"
    by (simp only: sin_cross)
  also have "\<dots> = 2 * sin h - sin (2 * h)" by simp
  also have "\<dots> = 2 * sin h * (1 - cos h)"
    unfolding sin_double by (simp add: algebra_simps)
  finally show ?thesis .
qed

lemma chord_two_angles:
  fixes a h :: real
  shows "(cos a - cos (a + 2 * h))\<^sup>2 + (sin a - sin (a + 2 * h))\<^sup>2 = 4 * (sin h)\<^sup>2"
proof -
  have "(cos a - cos (a + 2 * h))\<^sup>2 + (sin a - sin (a + 2 * h))\<^sup>2
      = ((cos a)\<^sup>2 + (sin a)\<^sup>2) + ((cos (a + 2 * h))\<^sup>2 + (sin (a + 2 * h))\<^sup>2)
        - 2 * (cos (a + 2 * h) * cos a + sin (a + 2 * h) * sin a)"
    by (simp add: power2_eq_square algebra_simps)
  also have "\<dots> = 2 - 2 * cos (a + 2 * h - a)"
    by (simp only: cos_diff sin_cos_squared_add3 sin_cos_squared_add2)
  also have "\<dots> = 4 * (sin h)\<^sup>2" by (simp add: cos_double_sin)
  finally show ?thesis .
qed

lemma one_minus_cos_bound: "(sin h)\<^sup>2 \<le> 2 * (1 - cos h)" for h :: real
proof -
  have "(sin h)\<^sup>2 = (1 - cos h) * (1 + cos h)"
    by (simp add: sin_squared_eq power2_eq_square algebra_simps)
  also have "\<dots> \<le> (1 - cos h) * 2"
    by (rule mult_left_mono) (simp_all)
  finally show ?thesis by simp
qed

lemma det_bound:
  fixes \<rho> q denom D sh ch :: real
  assumes D: "D = 4 * \<rho>\<^sup>2 * sh * (1 - ch)"
      and q: "q = 4 * \<rho>\<^sup>2 * sh\<^sup>2"
      and t: "\<rho>\<^sup>2 * denom\<^sup>2 = q\<^sup>2"
      and b: "sh\<^sup>2 \<le> 2 * (1 - ch)"
      and ql: "1 / 10 ^ 6 \<le> q"
      and dl: "1 / 10 ^ 6 \<le> \<bar>denom\<bar>"
  shows "1 / 10 ^ 10 \<le> \<bar>D\<bar>"
proof -
  have qpos: "0 < q" using ql by (rule less_le_trans[rotated]) simp
  define u where "u = 1 - ch"
  define s2 where "s2 = sh\<^sup>2"
  have s2nn: "0 \<le> s2" by (simp add: s2_def)
  have u_ge: "s2 / 2 \<le> u" using b by (simp add: u_def s2_def)
  then have unn: "0 \<le> u" using s2nn by linarith
  have "(s2 / 2)\<^sup>2 \<le> u\<^sup>2"
    using u_ge s2nn by (intro power_mono) simp_all
  then have u2: "s2\<^sup>2 \<le> 4 * u\<^sup>2" by (simp add: power_divide)
  have rnn: "0 \<le> \<rho>\<^sup>2" by simp
  have D2: "D\<^sup>2 = 16 * (\<rho>\<^sup>2)\<^sup>2 * s2 * u\<^sup>2"
    by (simp add: D u_def s2_def power_mult_distrib)
  have q3: "q ^ 3 = 64 * (\<rho>\<^sup>2) ^ 3 * s2 ^ 3"
    by (simp add: q s2_def power_mult_distrib)
  have "q ^ 3 = 16 * \<rho>\<^sup>2 * (4 * (\<rho>\<^sup>2)\<^sup>2 * s2 * s2\<^sup>2)"
    unfolding q3 by (simp add: power2_eq_square power3_eq_cube)
  also have "\<dots> \<le> 16 * \<rho>\<^sup>2 * (4 * (\<rho>\<^sup>2)\<^sup>2 * s2 * (4 * u\<^sup>2))"
    using u2 s2nn rnn by (intro mult_left_mono) simp_all
  also have "\<dots> = 16 * \<rho>\<^sup>2 * D\<^sup>2" unfolding D2 by simp
  finally have step: "q ^ 3 \<le> 16 * \<rho>\<^sup>2 * D\<^sup>2" .
  have "q ^ 3 * denom\<^sup>2 \<le> 16 * \<rho>\<^sup>2 * D\<^sup>2 * denom\<^sup>2"
    using step by (intro mult_right_mono) simp_all
  also have "\<dots> = 16 * D\<^sup>2 * (\<rho>\<^sup>2 * denom\<^sup>2)" by simp
  also have "\<dots> = 16 * D\<^sup>2 * q\<^sup>2" by (simp only: t)
  finally have "q\<^sup>2 * (q * denom\<^sup>2) \<le> q\<^sup>2 * (16 * D\<^sup>2)"
    by (simp add: power2_eq_square power3_eq_cube algebra_simps)
  moreover have "0 < q\<^sup>2" using qpos by simp
  ultimately have main: "q * denom\<^sup>2 \<le> 16 * D\<^sup>2"
    by (simp only: mult_le_cancel_left_pos)
  have "(1 / 10 ^ 6)\<^sup>2 \<le> \<bar>denom\<bar>\<^sup>2"
    using dl by (intro power_mono) simp_all
  then have d2: "1 / 10 ^ 12 \<le> denom\<^sup>2" by (simp add: power_divide)
  have "(1 / 10 ^ 6) * (1 / 10 ^ 12) \<le> q * denom\<^sup>2"
    using ql d2 by (intro mult_mono) simp_all
  with main have "(1 / 10 ^ 6) * (1 / 10 ^ 12) \<le> 16 * D\<^sup>2" by linarith
  then have "(1 / 10 ^ 10)\<^sup>2 \<le> \<bar>D\<bar>\<^sup>2" by (simp add: power_divide)
  then show ?thesis
    by (rule power2_le_imp_le) simp
qed

lemma periodic_shift:
  fixes a :: real and k :: int
  shows "cos (a + 2 * pi * of_int k) = cos a" and "sin (a + 2 * pi * of_int k) = sin a"
proof -
  have c: "cos (2 * pi * of_int k) = 1" by (rule cos_int_2pin)
  have s: "sin (2 * pi * of_int k) = 0" by (rule sin_int_2pin)
  show "cos (a + 2 * pi * of_int k) = cos a" unfolding cos_add c s by simp
  show "sin (a + 2 * pi * of_int k) = sin a" unfolding sin_add c s by simp
qed

lemma chord_scaled:
  fixes Cx Cy \<rho> c1 s1 c2 s2 :: real
  shows "(Cx + \<rho> * c1 - (Cx + \<rho> * c2)) * (Cx + \<rho> * c1 - (Cx + \<rho> * c2))
         + (Cy + \<rho> * s1 - (Cy + \<rho> * s2)) * (Cy + \<rho> * s1 - (Cy + \<rho> * s2))
       = \<rho>\<^sup>2 * ((c1 - c2)\<^sup>2 + (s1 - s2)\<^sup>2)"
  by (simp add: power2_eq_square algebra_simps)

lemma det_scaled:
  fixes Cx Cy \<rho> c1 s1 c2 s2 c3 s3 :: real
  shows "2 * ((Cx + \<rho> * c1) * ((Cy + \<rho> * s2) - (Cy + \<rho> * s3))
            + (Cx + \<rho> * c2) * ((Cy + \<rho> * s3) - (Cy + \<rho> * s1))
            + (Cx + \<rho> * c3) * ((Cy + \<rho> * s1) - (Cy + \<rho> * s2)))
       = 2 * \<rho>\<^sup>2 * (c1 * (s2 - s3) + c2 * (s3 - s1) + c3 * (s1 - s2))"
  by (simp add: power2_eq_square algebra_simps)

lemma tangent_arc_core:
  fixes S E T :: point
  defines "nx \<equiv> - y T" and "ny \<equiv> x T"
  defines "dx \<equiv> x S - x E" and "dy \<equiv> y S - y E"
  defines "denom \<equiv> 2 * (nx * dx + ny * dy)"
  defines "t \<equiv> - (dx * dx + dy * dy) / denom"
  assumes unit: "(x T)\<^sup>2 + (y T)\<^sup>2 = 1"
      and ql: "\<not> dx * dx + dy * dy < 1 / 10 ^ 6"
      and dl: "\<not> \<bar>denom\<bar> < 1 / 10 ^ 6"
  shows "\<exists>B c. computeTangentArcBulge S E T = Some B
            \<and> circumscribedCircle S B E = Some c
            \<and> cx c = x S + t * nx \<and> cy c = y S + t * ny \<and> r c = \<bar>t\<bar>"
proof -
  define q where "q = dx * dx + dy * dy"
  define Cx where "Cx = x S + t * nx"
  define Cy where "Cy = y S + t * ny"
  define \<rho> where "\<rho> = \<bar>t\<bar>"
  define a1 where "a1 = Math_atan2 (y S - Cy) (x S - Cx)"
  define a3 where "a3 = Math_atan2 (y E - Cy) (x E - Cx)"
  define aMid where "aMid =
      (if 0 < t
       then a1 + (if normalizeAngle (a3 - a1) = 0 then 2 * pi else normalizeAngle (a3 - a1)) / 2
       else a1 - (if normalizeAngle (a1 - a3) = 0 then 2 * pi else normalizeAngle (a1 - a3)) / 2)"
  define B where "B = \<lparr>x = Cx + \<rho> * cos aMid, y = Cy + \<rho> * sin aMid\<rparr>"
  have res: "computeTangentArcBulge S E T = Some B"
    using ql dl
    unfolding computeTangentArcBulge_def Let_def B_def aMid_def a1_def a3_def \<rho>_def Cx_def Cy_def
      t_def denom_def dx_def dy_def nx_def ny_def
    by simp
  have small: "(0::real) < 1 / 10 ^ 6" by simp
  from ql have qge: "1 / 10 ^ 6 \<le> q" by (simp add: q_def)
  with small have qpos: "0 < q" by linarith
  from dl have dge: "1 / 10 ^ 6 \<le> \<bar>denom\<bar>" by simp
  with small have dnz: "denom \<noteq> 0" by auto
  have t_eq: "t * denom = - q" using dnz by (simp add: t_def q_def)
  have tnz: "t \<noteq> 0" using t_eq qpos by auto
  then have rpos: "0 < \<rho>" by (simp add: \<rho>_def)
  have r2: "\<rho>\<^sup>2 = t\<^sup>2" by (simp add: \<rho>_def)
  have n1: "nx * nx + ny * ny = 1"
    using unit by (simp add: nx_def ny_def power2_eq_square algebra_simps)
  have onS: "(x S - Cx)\<^sup>2 + (y S - Cy)\<^sup>2 = \<rho>\<^sup>2"
  proof -
    have "(x S - Cx)\<^sup>2 + (y S - Cy)\<^sup>2 = t * t * (nx * nx + ny * ny)"
      by (simp add: Cx_def Cy_def power2_eq_square algebra_simps)
    also have "\<dots> = t\<^sup>2" by (simp add: n1 power2_eq_square)
    also have "\<dots> = \<rho>\<^sup>2" by (simp add: r2)
    finally show ?thesis .
  qed
  have onE: "(x E - Cx)\<^sup>2 + (y E - Cy)\<^sup>2 = \<rho>\<^sup>2"
  proof -
    have "(x E - Cx)\<^sup>2 + (y E - Cy)\<^sup>2 = q + t * denom + t * t * (nx * nx + ny * ny)"
      by (simp add: Cx_def Cy_def q_def denom_def dx_def dy_def power2_eq_square algebra_simps)
    also have "\<dots> = t\<^sup>2" by (simp add: n1 t_eq power2_eq_square)
    also have "\<dots> = \<rho>\<^sup>2" by (simp add: r2)
    finally show ?thesis .
  qed
  have pS: "\<rho> * cos a1 = x S - Cx" "\<rho> * sin a1 = y S - Cy"
    unfolding a1_def using Math_atan2_polar[OF rpos onS] by simp_all
  have pE: "\<rho> * cos a3 = x E - Cx" "\<rho> * sin a3 = y E - Cy"
    unfolding a3_def using Math_atan2_polar[OF rpos onE] by simp_all
  have "\<exists>h (k::int). aMid = a1 + h \<and> a3 = a1 + 2 * h + 2 * pi * of_int k"
  proof (cases "0 < t")
    case True
    obtain k :: int where k:
      "(if normalizeAngle (a3 - a1) = 0 then 2 * pi else normalizeAngle (a3 - a1))
         = (a3 - a1) + 2 * pi * of_int k"
      using sweep_shift by blast
    define h where "h = ((a3 - a1) + 2 * pi * of_int k) / 2"
    have "aMid = a1 + h" using True by (simp only: aMid_def if_True k h_def)
    moreover have "2 * h = (a3 - a1) + 2 * pi * of_int k" by (simp add: h_def)
    then have "a3 = a1 + 2 * h + 2 * pi * of_int (- k)" by (simp add: algebra_simps)
    ultimately show ?thesis by blast
  next
    case False
    obtain k :: int where k:
      "(if normalizeAngle (a1 - a3) = 0 then 2 * pi else normalizeAngle (a1 - a3))
         = (a1 - a3) + 2 * pi * of_int k"
      using sweep_shift by blast
    define h where "h = (a3 - a1 - 2 * pi * of_int k) / 2"
    have "aMid = a1 - ((a1 - a3) + 2 * pi * of_int k) / 2"
      using False by (simp only: aMid_def if_False k)
    then have "aMid = a1 + h"
      by (simp add: h_def diff_divide_distrib add_divide_distrib)
    moreover have "2 * h = a3 - a1 - 2 * pi * of_int k" by (simp add: h_def)
    then have "a3 = a1 + 2 * h + 2 * pi * of_int k" by (simp add: algebra_simps)
    ultimately show ?thesis by blast
  qed
  then obtain h and k :: int where hm: "aMid = a1 + h"
    and h3: "a3 = a1 + 2 * h + 2 * pi * of_int k" by blast
  have c3: "cos a3 = cos (a1 + 2 * h)" "sin a3 = sin (a1 + 2 * h)"
    unfolding h3 by (rule periodic_shift)+
  have xs: "x S = Cx + \<rho> * cos a1" "y S = Cy + \<rho> * sin a1"
    using pS by simp_all
  have xe: "x E = Cx + \<rho> * cos (a1 + 2 * h)" "y E = Cy + \<rho> * sin (a1 + 2 * h)"
    using pE c3 by simp_all
  have xb: "x B = Cx + \<rho> * cos (a1 + h)" "y B = Cy + \<rho> * sin (a1 + h)"
    by (simp_all add: B_def hm)
  define D where "D = 2 * (x S * (y B - y E) + x B * (y E - y S) + x E * (y S - y B))"
  have "D = 2 * \<rho>\<^sup>2 * (cos a1 * (sin (a1 + h) - sin (a1 + 2 * h))
                    + cos (a1 + h) * (sin (a1 + 2 * h) - sin a1)
                    + cos (a1 + 2 * h) * (sin a1 - sin (a1 + h)))"
    unfolding D_def xs xe xb by (rule det_scaled)
  then have Dv: "D = 4 * \<rho>\<^sup>2 * sin h * (1 - cos h)"
    by (simp only: det_three_angles)
  have "q = \<rho>\<^sup>2 * ((cos a1 - cos (a1 + 2 * h))\<^sup>2 + (sin a1 - sin (a1 + 2 * h))\<^sup>2)"
    unfolding q_def dx_def dy_def xs xe by (rule chord_scaled)
  then have qv: "q = 4 * \<rho>\<^sup>2 * (sin h)\<^sup>2"
    by (simp only: chord_two_angles)
  have "(t * denom)\<^sup>2 = q\<^sup>2" by (simp add: t_eq)
  then have td: "\<rho>\<^sup>2 * denom\<^sup>2 = q\<^sup>2" by (simp add: r2 power_mult_distrib)
  have Dge: "1 / 10 ^ 10 \<le> \<bar>D\<bar>"
    by (rule det_bound[OF Dv qv td one_minus_cos_bound qge dge])
  then have nsmall: "\<not> \<bar>D\<bar> < 1 / 10 ^ 10" by simp
  have "(0::real) < 1 / 10 ^ 10" by simp
  with Dge have Dnz: "D \<noteq> 0" by auto
  have onB: "(x B - Cx)\<^sup>2 + (y B - Cy)\<^sup>2 = \<rho>\<^sup>2"
  proof -
    have "(x B - Cx)\<^sup>2 + (y B - Cy)\<^sup>2 = (\<rho> * cos aMid)\<^sup>2 + (\<rho> * sin aMid)\<^sup>2"
      by (simp add: B_def)
    also have "\<dots> = \<rho>\<^sup>2 * ((cos aMid)\<^sup>2 + (sin aMid)\<^sup>2)"
      by (simp only: power_mult_distrib distrib_left)
    also have "\<dots> = \<rho>\<^sup>2" by (simp only: sin_cos_squared_add2 mult_1_right)
    finally show ?thesis .
  qed
  define ux where "ux = ((x S * x S + y S * y S) * (y B - y E) + (x B * x B + y B * y B) * (y E - y S)
                      + (x E * x E + y E * y E) * (y S - y B)) / D"
  define uy where "uy = ((x S * x S + y S * y S) * (x E - x B) + (x B * x B + y B * y B) * (x S - x E)
                      + (x E * x E + y E * y E) * (x B - x S)) / D"
  have circ: "circumscribedCircle S B E
             = Some \<lparr>cx = ux, cy = uy, r = sqrt ((x S - ux)\<^sup>2 + (y S - uy)\<^sup>2)\<rparr>"
    using nsmall unfolding circumscribedCircle_def Let_def D_def ux_def uy_def by simp
  have ux: "ux = Cx"
    unfolding ux_def D_def
    by (rule circumcentre_unique(1)[OF onS onB onE]) (use Dnz in \<open>simp add: D_def\<close>)
  have uy: "uy = Cy"
    unfolding uy_def D_def
    by (rule circumcentre_unique(2)[OF onS onB onE]) (use Dnz in \<open>simp add: D_def\<close>)
  have rr: "sqrt ((x S - ux)\<^sup>2 + (y S - uy)\<^sup>2) = \<bar>t\<bar>"
    unfolding ux uy onS using rpos by (simp add: \<rho>_def)
  show ?thesis
    using res circ ux uy rr by (simp add: Cx_def Cy_def)
qed

lemma computeTangentArcBulge_None_iff:
  "computeTangentArcBulge S E T = None
     \<longleftrightarrow> chordSq S E < 1 / 10 ^ 6 \<or> \<bar>tangentDenom S E T\<bar> < 1 / 10 ^ 6"
  unfolding computeTangentArcBulge_def Let_def chordSq_def tangentDenom_def
  by simp

text \<open>
  Claim C5. \<open>computeTangentArcBulge\<close> returns \<open>null\<close> exactly when the squared distance of
  the endpoints is below \<open>1e-6\<close> or the magnitude of the denominator is below \<open>1e-6\<close>.
  Otherwise, for a unit tangent direction, \<open>circumscribedCircle\<close> of the start, the
  returned bulge and the end is a circle (it is not \<open>null\<close>), and the vector from its
  centre to the start is perpendicular to the tangent direction: the circle is tangent
  to that direction at the start.
\<close>

theorem computeTangentArcBulge_self_consistent:
  "(computeTangentArcBulge S E T = None
      \<longleftrightarrow> chordSq S E < 1 / 10 ^ 6 \<or> \<bar>tangentDenom S E T\<bar> < 1 / 10 ^ 6)
 \<and> ((x T)\<^sup>2 + (y T)\<^sup>2 = 1 \<longrightarrow>
      (\<forall>B. computeTangentArcBulge S E T = Some B \<longrightarrow>
         (\<exists>c. circumscribedCircle S B E = Some c
            \<and> (x S - cx c) * x T + (y S - cy c) * y T = 0)))"
proof (intro conjI impI allI)
  show "computeTangentArcBulge S E T = None
      \<longleftrightarrow> chordSq S E < 1 / 10 ^ 6 \<or> \<bar>tangentDenom S E T\<bar> < 1 / 10 ^ 6"
    by (rule computeTangentArcBulge_None_iff)
next
  fix B
  assume unit: "(x T)\<^sup>2 + (y T)\<^sup>2 = 1" and B: "computeTangentArcBulge S E T = Some B"
  from B have nn: "computeTangentArcBulge S E T \<noteq> None" by simp
  then have ql: "\<not> (x S - x E) * (x S - x E) + (y S - y E) * (y S - y E) < 1 / 10 ^ 6"
    and dl: "\<not> \<bar>2 * (- y T * (x S - x E) + x T * (y S - y E))\<bar> < 1 / 10 ^ 6"
    unfolding computeTangentArcBulge_None_iff chordSq_def tangentDenom_def by simp_all
  define tt where "tt = - ((x S - x E) * (x S - x E) + (y S - y E) * (y S - y E))
                          / (2 * (- y T * (x S - x E) + x T * (y S - y E)))"
  from tangent_arc_core[OF unit ql dl] B
  obtain c where c: "circumscribedCircle S B E = Some c"
    and cx: "cx c = x S + tt * - y T" and cy: "cy c = y S + tt * x T"
    unfolding tt_def by auto
  have "(x S - cx c) * x T + (y S - cy c) * y T = 0"
    unfolding cx cy by (simp add: algebra_simps)
  with c show "\<exists>c. circumscribedCircle S B E = Some c
            \<and> (x S - cx c) * x T + (y S - cy c) * y T = 0" by blast
qed

text \<open>
  Witness for C5: coincident endpoints, an endpoint on the tangent line, and the
  specification's scenario (start \<open>(0,0)\<close>, end \<open>(10,10)\<close>, tangent \<open>(1,0)\<close>).
\<close>

theorem computeTangentArcBulge_self_consistent_witness:
  "computeTangentArcBulge \<lparr>x = 0, y = 0\<rparr> \<lparr>x = 0, y = 0\<rparr> \<lparr>x = 1, y = 0\<rparr> = None
   \<and> computeTangentArcBulge \<lparr>x = 0, y = 0\<rparr> \<lparr>x = 10, y = 0\<rparr> \<lparr>x = 1, y = 0\<rparr> = None
   \<and> (\<exists>B c. computeTangentArcBulge \<lparr>x = 0, y = 0\<rparr> \<lparr>x = 10, y = 10\<rparr> \<lparr>x = 1, y = 0\<rparr> = Some B
          \<and> circumscribedCircle \<lparr>x = 0, y = 0\<rparr> B \<lparr>x = 10, y = 10\<rparr> = Some c
          \<and> (x \<lparr>x = 0, y = 0\<rparr> - cx c) * x \<lparr>x = 1, y = 0\<rparr>
              + (y \<lparr>x = 0, y = 0\<rparr> - cy c) * y \<lparr>x = 1, y = 0\<rparr> = 0)"
proof -
  have a: "chordSq \<lparr>x = 0, y = 0\<rparr> \<lparr>x = 0, y = 0\<rparr> < 1 / 10 ^ 6"
    by (simp add: chordSq_def)
  have b: "\<bar>tangentDenom \<lparr>x = 0, y = 0\<rparr> \<lparr>x = 10, y = 0\<rparr> \<lparr>x = 1, y = 0\<rparr>\<bar> < 1 / 10 ^ 6"
    by (simp add: tangentDenom_def)
  have c: "\<not> (chordSq \<lparr>x = 0, y = 0\<rparr> \<lparr>x = 10, y = 10\<rparr> < 1 / 10 ^ 6
             \<or> \<bar>tangentDenom \<lparr>x = 0, y = 0\<rparr> \<lparr>x = 10, y = 10\<rparr> \<lparr>x = 1, y = 0\<rparr>\<bar> < 1 / 10 ^ 6)"
    by (simp add: chordSq_def tangentDenom_def)
  have u: "(x \<lparr>x = 1, y = 0\<rparr>)\<^sup>2 + (y \<lparr>x = 1, y = 0\<rparr>)\<^sup>2 = (1::real)" by simp
  from computeTangentArcBulge_self_consistent[of "\<lparr>x = 0, y = 0\<rparr>" "\<lparr>x = 0, y = 0\<rparr>" "\<lparr>x = 1, y = 0\<rparr>"] a
  have r1: "computeTangentArcBulge \<lparr>x = 0, y = 0\<rparr> \<lparr>x = 0, y = 0\<rparr> \<lparr>x = 1, y = 0\<rparr> = None"
    by blast
  from computeTangentArcBulge_self_consistent[of "\<lparr>x = 0, y = 0\<rparr>" "\<lparr>x = 10, y = 0\<rparr>" "\<lparr>x = 1, y = 0\<rparr>"] b
  have r2: "computeTangentArcBulge \<lparr>x = 0, y = 0\<rparr> \<lparr>x = 10, y = 0\<rparr> \<lparr>x = 1, y = 0\<rparr> = None"
    by blast
  note t = computeTangentArcBulge_self_consistent[of "\<lparr>x = 0, y = 0\<rparr>" "\<lparr>x = 10, y = 10\<rparr>" "\<lparr>x = 1, y = 0\<rparr>"]
  from t c have "computeTangentArcBulge \<lparr>x = 0, y = 0\<rparr> \<lparr>x = 10, y = 10\<rparr> \<lparr>x = 1, y = 0\<rparr> \<noteq> None"
    by blast
  then obtain B where B: "computeTangentArcBulge \<lparr>x = 0, y = 0\<rparr> \<lparr>x = 10, y = 10\<rparr> \<lparr>x = 1, y = 0\<rparr> = Some B"
    by blast
  from t u B have "\<exists>c. circumscribedCircle \<lparr>x = 0, y = 0\<rparr> B \<lparr>x = 10, y = 10\<rparr> = Some c
          \<and> (x \<lparr>x = 0, y = 0\<rparr> - cx c) * x \<lparr>x = 1, y = 0\<rparr>
              + (y \<lparr>x = 0, y = 0\<rparr> - cy c) * y \<lparr>x = 1, y = 0\<rparr> = 0"
    by blast
  with B r1 r2 show ?thesis by blast
qed

section \<open>The hold timer after a click\<close>

























end
